theory Spec2Isabelle
  imports Complex_Main
begin

section \<open>Python simulator for mobile 2D robots: \<^verbatim>\<open>python_simulator/main.py\<close>\<close>

text \<open>
  The script is module-level code: a parameter block, the pre-calculations (neighbour
  counts, edge list, Laplacian, constraint matrices), the simulation loop and the
  plotting. Python floats are read as real numbers; numpy vectors are lists of reals,
  matrices lists of rows. An exception of the script is a value of \<open>py_error\<close>.
\<close>

datatype py_error = IndexError | NameError | ValueError | ZeroDivisionError | SolverError

type_synonym vec = "real list"
type_synonym mat = "real list list"

subsection \<open>Parameter setup (lines 24-86)\<close>

record config =
  winx :: int
  winy :: int
  r_robot :: real
  freq :: int
  max_T :: int
  formation_positions :: "int list list"
  neighbours :: "int list list"
  cm :: int
  oa :: int
  d_cm :: real
  d_oa :: real
  alpha :: real
  huil :: int
  human_robot :: int
  v_huil :: real
  division :: int
  wedge :: bool
  extra_robot :: bool

definition dim :: nat where
  "dim = 2"

definition x_max :: "config \<Rightarrow> int" where
  "x_max cfg = winx cfg - 5"

definition y_max :: "config \<Rightarrow> int" where
  "y_max cfg = winy cfg - 5"

definition number_robots :: "config \<Rightarrow> nat" where
  "number_robots cfg = length (formation_positions cfg)"

text \<open>Line 59: \<^verbatim>\<open>[[i+1 for i in range(n) if i != j] for j in range(n)]\<close>.\<close>

definition complete_neighbours :: "nat \<Rightarrow> int list list" where
  "complete_neighbours n =
     map (\<lambda>j. map (\<lambda>i. int i + 1) (filter (\<lambda>i. i \<noteq> j) [0..<n])) [0..<n]"

definition default_formation :: "int list list" where
  "default_formation =
     [[0, 10], [0, 8], [0, 6], [0, 4], [0, 2], [0, 0], [0, -2], [0, -4], [0, -6],
      [0, -8], [0, -10], [10, 10], [8, 8], [6, 6], [4, 4], [2, 2], [2, -2], [4, -4],
      [6, -6], [8, -8], [10, -10]]"

definition default_config :: config where
  "default_config =
     \<lparr> winx = 30, winy = 30, r_robot = 1 / 2, freq = 50, max_T = 60,
       formation_positions = default_formation,
       neighbours = complete_neighbours (length default_formation),
       cm = 0, oa = 1, d_cm = 3, d_oa = 11 / 10, alpha = 1,
       huil = 1, human_robot = int (length default_formation),
       v_huil = 5 / 2, division = 6, wedge = False, extra_robot = True \<rparr>"

subsection \<open>numpy helpers\<close>

text \<open>
  An integer index into an axis of length \<open>n\<close>: \<open>0 .. n-1\<close> as it is, \<open>-n .. -1\<close> counted
  from the end, anything else raises IndexError.
\<close>

definition np_index :: "nat \<Rightarrow> int \<Rightarrow> nat option" where
  "np_index n k =
     (if 0 \<le> k \<and> k < int n then Some (nat k)
      else if - int n \<le> k \<and> k < 0 then Some (nat (k + int n))
      else None)"

definition zeros :: "nat \<Rightarrow> nat \<Rightarrow> mat" where
  "zeros r c = replicate r (replicate c 0)"

definition set_entry :: "mat \<Rightarrow> nat \<Rightarrow> nat \<Rightarrow> real \<Rightarrow> mat" where
  "set_entry M r c v = M[r := (M ! r)[c := v]]"

subsection \<open>Pre-calculations: neighbour counts, edge list, Laplacian (lines 89-107)\<close>

record graph =
  number_neighbours :: "nat list"
  edges :: "(int \<times> int) list"
  L_G :: mat

text \<open>
  The inner loop \<^verbatim>\<open>for j in neighbours[i]\<close>: the pair \<open>(i+1, j)\<close> is appended to the edge
  list, and \<open>L_G[i, j-1]\<close> set to \<open>-1\<close>, only when neither orientation of the pair is in
  the edge list yet.
\<close>

fun edge_loop :: "nat \<Rightarrow> nat \<Rightarrow> int list \<Rightarrow> (int \<times> int) list \<times> mat
    \<Rightarrow> py_error + ((int \<times> int) list \<times> mat)" where
  "edge_loop n i [] (es, L) = Inr (es, L)"
| "edge_loop n i (j # js) (es, L) =
     (if (int i + 1, j) \<notin> set es \<and> (j, int i + 1) \<notin> set es then
        (case np_index n (j - 1) of
           None \<Rightarrow> Inl IndexError
         | Some c \<Rightarrow> edge_loop n i js (es @ [(int i + 1, j)], set_entry L i c (- 1)))
      else edge_loop n i js (es, L))"

text \<open>
  The outer loop \<^verbatim>\<open>for i in range(number_robots)\<close>. \<open>L_G\<close> has \<open>number_robots\<close> rows and
  columns, so \<open>L_G[i, i]\<close> is always in range; \<open>neighbours[i]\<close> and \<open>L_G[i, j-1]\<close> need
  not be.
\<close>

fun graph_loop :: "nat \<Rightarrow> int list list \<Rightarrow> nat list \<Rightarrow> graph \<Rightarrow> py_error + graph" where
  "graph_loop n nbrs [] g = Inr g"
| "graph_loop n nbrs (i # rest) g =
     (if i < length nbrs then
        (let nn = number_neighbours g @ [length (nbrs ! i)] in
         if i < length nn then
           (case edge_loop n i (nbrs ! i)
                   (edges g, set_entry (L_G g) i i (real (nn ! i))) of
              Inl e \<Rightarrow> Inl e
            | Inr (es, L) \<Rightarrow>
                graph_loop n nbrs rest
                  \<lparr> number_neighbours = nn, edges = es, L_G = L \<rparr>)
         else Inl IndexError)
      else Inl IndexError)"

definition build_graph :: "config \<Rightarrow> py_error + graph" where
  "build_graph cfg =
     graph_loop (number_robots cfg) (neighbours cfg) [0..<number_robots cfg]
       \<lparr> number_neighbours = [], edges = [],
         L_G = zeros (number_robots cfg) (number_robots cfg) \<rparr>"

subsection \<open>Initial positions (lines 165-175)\<close>

definition max_time_size :: "config \<Rightarrow> int" where
  "max_time_size cfg = max_T cfg * freq cfg"

text \<open>
  \<^verbatim>\<open>p[:,0] = x_max*np.random.rand(number_robots*dim)-x_max/2\<close>; the draw \<open>r\<close> of the
  generator is an argument. The division is true division
  (\<^verbatim>\<open>from __future__ import division\<close>).
\<close>

definition initial_p :: "config \<Rightarrow> vec \<Rightarrow> vec" where
  "initial_p cfg r =
     map (\<lambda>x. real_of_int (x_max cfg) * x - real_of_int (x_max cfg) / 2) r"

definition initial_huil_p :: vec where
  "initial_huil_p = [- 5, 20]"

subsection \<open>Pre-calculations: formation vector and constraint matrices (lines 114-131)\<close>

text \<open>
  \<^verbatim>\<open>p_d = np.reshape(formation_positions, number_robots*dim)\<close>: the rows are laid out one
  after the other; rows that are not pairs do not reshape.
\<close>

definition reshape_formation :: "config \<Rightarrow> py_error + vec" where
  "reshape_formation cfg =
     (if list_all (\<lambda>row. length row = dim) (formation_positions cfg)
      then Inr (map real_of_int (concat (formation_positions cfg)))
      else Inl ValueError)"

definition As :: mat where
  "As = [[- 1, 0], [1, 0], [0, - 1], [0, 1]]"

definition Aw :: "config \<Rightarrow> py_error + mat" where
  "Aw cfg =
     (if x_max cfg = 0 then Inl ZeroDivisionError
      else Inr [[- real_of_int (y_max cfg) / (2 * real_of_int (x_max cfg)), - 1],
                [- real_of_int (y_max cfg) / (2 * real_of_int (x_max cfg)), 1]])"

text \<open>
  The slice assignment \<^verbatim>\<open>M[r:r+h, c:c+w] = B\<close> for a block \<open>B\<close> that lies inside \<open>M\<close>, as
  every block of the loop at lines 123-125 does. That loop fills \<open>A_arena\<close> and \<open>A_wedge\<close>
  in the same pass; the two matrices do not depend on each other and are filled here by
  one loop each.
\<close>

definition set_block :: "mat \<Rightarrow> nat \<Rightarrow> nat \<Rightarrow> mat \<Rightarrow> mat" where
  "set_block M r c B =
     map (\<lambda>k. map (\<lambda>l.
            if r \<le> k \<and> k < r + length B \<and> c \<le> l \<and> l < c + length (B ! (k - r))
            then B ! (k - r) ! (l - c) else M ! k ! l)
          [0..<length (M ! k)])
       [0..<length M]"

definition arena_loop :: "nat list \<Rightarrow> mat \<Rightarrow> mat" where
  "arena_loop idx M = fold (\<lambda>i M. set_block M (4 * i) (2 * i) As) idx M"

definition wedge_loop :: "mat \<Rightarrow> nat list \<Rightarrow> mat \<Rightarrow> mat" where
  "wedge_loop aw idx M = fold (\<lambda>i M. set_block M (2 * i) (2 * i) aw) idx M"

record precalc =
  gr :: graph
  p_d :: vec
  A_arena :: mat
  b_arena :: vec
  A_wedge :: mat
  b_wedge :: vec
  A_extra :: mat
  b_extra :: vec

text \<open>
  Line 158 reads \<^verbatim>\<open>robot_col[2*human_robot-1]\<close> and \<^verbatim>\<open>robot_col[2*human_robot]\<close> from the
  list of \<open>1 + 2 * number_robots\<close> column names.
\<close>

definition huil_columns_ok :: "config \<Rightarrow> bool" where
  "huil_columns_ok cfg =
     (np_index (1 + 2 * number_robots cfg) (2 * human_robot cfg - 1) \<noteq> None \<and>
      np_index (1 + 2 * number_robots cfg) (2 * human_robot cfg) \<noteq> None)"

definition precalculate :: "config \<Rightarrow> py_error + precalc" where
  "precalculate cfg =
     (let n = number_robots cfg in
      case build_graph cfg of
        Inl e \<Rightarrow> Inl e
      | Inr g \<Rightarrow>
          (case reshape_formation cfg of
             Inl e \<Rightarrow> Inl e
           | Inr pd \<Rightarrow>
               (case Aw cfg of
                  Inl e \<Rightarrow> Inl e
                | Inr aw \<Rightarrow>
                    if huil_columns_ok cfg then
                      Inr \<lparr> gr = g, p_d = pd,
                            A_arena = arena_loop [0..<n] (zeros (n * 4) (n * 2)),
                            b_arena = replicate (n * 4) 0,
                            A_wedge = wedge_loop aw [0..<n] (zeros (n * 2) (n * 2)),
                            b_wedge = replicate (n * 2) 0,
                            A_extra = zeros n (n * dim),
                            b_extra = replicate n 0 \<rparr>
                    else Inl IndexError)))"

subsection \<open>The functions imported from the module \<^verbatim>\<open>auxiliary\<close>\<close>

text \<open>
  \<^verbatim>\<open>from auxiliary import *\<close> brings in \<^verbatim>\<open>formationController\<close>, \<^verbatim>\<open>huilController\<close>,
  \<^verbatim>\<open>cbfControllerWArenaExtra\<close>, \<^verbatim>\<open>cbfControllerWArenaWedge\<close>, \<^verbatim>\<open>cbfControllerWArena\<close>,
  \<^verbatim>\<open>systemDynamics\<close> and \<^verbatim>\<open>extraRobotDynamics\<close>. The module itself is not part of the
  sources at hand; only the calls in \<^verbatim>\<open>main.py\<close> are.
\<close>

definition dot :: "vec \<Rightarrow> vec \<Rightarrow> real" where
  "dot x y = sum_list (map2 (*) x y)"

definition mat_vec :: "mat \<Rightarrow> vec \<Rightarrow> vec" where
  "mat_vec A x = map (\<lambda>row. dot row x) A"

definition kron :: "mat \<Rightarrow> mat \<Rightarrow> mat" where
  "kron A B =
     concat (map (\<lambda>arow. map (\<lambda>brow. concat (map (\<lambda>a. map (\<lambda>b. a * b) brow) arow)) B) A)"

definition I2 :: mat where
  "I2 = [[1, 0], [0, 1]]"

text \<open>
  Modelled from the spec: \<^verbatim>\<open>formationController\<close>, called as
  \<^verbatim>\<open>formationController(L_G, p[:,i], p_d)\<close>, is in \<^verbatim>\<open>auxiliary\<close>. The spec gives it as
  \<open>u_nom = -(L \<otimes> I\<^sub>2)(p - p_d)\<close> for the Laplacian it is handed.
\<close>

definition formationController :: "mat \<Rightarrow> vec \<Rightarrow> vec \<Rightarrow> vec" where
  "formationController L pv pd =
     map uminus (mat_vec (kron L I2) (map2 (-) pv pd))"

text \<open>
  The consensus law in the spec's words: for robot \<open>i\<close> the sum over its neighbours \<open>j\<close> of
  \<open>(p\<^sub>j - p\<^sub>i) - (p_d\<^sub>j - p_d\<^sub>i)\<close>, coordinate by coordinate. Neighbours are numbered
  from 1, as in the configuration.
\<close>

definition consensus_coord :: "int list \<Rightarrow> vec \<Rightarrow> vec \<Rightarrow> nat \<Rightarrow> nat \<Rightarrow> real" where
  "consensus_coord nb pv pd i k =
     sum_list (map (\<lambda>j. (pv ! (2 * nat (j - 1) + k) - pv ! (2 * i + k))
                         - (pd ! (2 * nat (j - 1) + k) - pd ! (2 * i + k))) nb)"

definition consensus_law :: "int list list \<Rightarrow> vec \<Rightarrow> vec \<Rightarrow> vec" where
  "consensus_law nbrs pv pd =
     concat (map (\<lambda>i. [consensus_coord (nbrs ! i) pv pd i 0,
                        consensus_coord (nbrs ! i) pv pd i 1]) [0..<length nbrs])"

text \<open>
  Modelled from the spec: \<^verbatim>\<open>systemDynamics\<close>, called as \<^verbatim>\<open>systemDynamics(p[:,i], u)\<close>, is
  in \<^verbatim>\<open>auxiliary\<close>. The spec gives single-integrator dynamics: the derivative of the
  state is the command.
\<close>

definition systemDynamics :: "vec \<Rightarrow> vec \<Rightarrow> vec" where
  "systemDynamics pv u = u"

text \<open>
  Modelled from the spec: the quadratic program behind the \<^verbatim>\<open>cbfController*\<close> functions of
  \<^verbatim>\<open>auxiliary\<close>: minimise \<open>\<parallel>u - u_nom\<parallel>\<^sup>2\<close> subject to \<open>A u \<le> b\<close> over vectors of the
  dimension of \<open>u_nom\<close>. \<open>qp_solution A b u_nom u\<close> says that \<open>u\<close> is an optimum.
\<close>

definition feasible :: "mat \<Rightarrow> vec \<Rightarrow> vec \<Rightarrow> bool" where
  "feasible A b u = list_all2 (\<le>) (mat_vec A u) b"

definition strictly_feasible :: "mat \<Rightarrow> vec \<Rightarrow> vec \<Rightarrow> bool" where
  "strictly_feasible A b u = list_all2 (<) (mat_vec A u) b"

definition qp_objective :: "vec \<Rightarrow> vec \<Rightarrow> real" where
  "qp_objective u_nom u = sum_list (map2 (\<lambda>x y. (x - y)\<^sup>2) u u_nom)"

definition qp_solution :: "mat \<Rightarrow> vec \<Rightarrow> vec \<Rightarrow> vec \<Rightarrow> bool" where
  "qp_solution A b u_nom u =
     (length u = length u_nom \<and> feasible A b u \<and>
      (\<forall>v. length v = length u_nom \<and> feasible A b v
            \<longrightarrow> qp_objective u_nom u \<le> qp_objective u_nom v))"

text \<open>
  Modelled from the spec: the right-hand side that the \<^verbatim>\<open>cbfController*\<close> functions of
  \<^verbatim>\<open>auxiliary\<close> give the arena rows. For each wall \<open>h = bound - coordinate\<close> and the row
  reads \<open>- \<nabla>h \<cdot> u \<le> \<alpha> h\<close>; the four rows of a robot are in the order of \<open>As\<close>:
  \<open>-u\<^sub>x \<le> \<alpha> (x - xmin)\<close>, \<open>u\<^sub>x \<le> \<alpha> (xmax - x)\<close>, \<open>-u\<^sub>y \<le> \<alpha> (y - ymin)\<close>,
  \<open>u\<^sub>y \<le> \<alpha> (ymax - y)\<close>.
\<close>

definition arena_rhs :: "real \<Rightarrow> real \<Rightarrow> real \<Rightarrow> real \<Rightarrow> real \<Rightarrow> nat \<Rightarrow> vec \<Rightarrow> vec" where
  "arena_rhs a xmax xmin ymax ymin n pv =
     map (\<lambda>k. if k mod 4 = 0 then a * (pv ! (2 * (k div 4)) - xmin)
               else if k mod 4 = 1 then a * (xmax - pv ! (2 * (k div 4)))
               else if k mod 4 = 2 then a * (pv ! (2 * (k div 4) + 1) - ymin)
               else a * (ymax - pv ! (2 * (k div 4) + 1)))
       [0..<4 * n]"

text \<open>The argument lists of the three calls at lines 190-196.\<close>

record cbf_args =
  arg_p :: vec
  arg_u_n :: vec
  arg_cm :: int
  arg_oa :: int
  arg_d_cm :: real
  arg_d_oa :: real
  arg_number_robots :: nat
  arg_edges :: "(int \<times> int) list"
  arg_dim :: nat
  arg_alpha :: real
  arg_A_arena :: mat
  arg_b_arena :: vec
  arg_xmax :: real
  arg_xmin :: real
  arg_ymax :: real
  arg_ymin :: real

record extra_args =
  arg_A_extra :: mat
  arg_b_extra :: vec
  arg_d_extra :: real
  arg_huil_p :: vec
  arg_vx :: real
  arg_vy :: real

datatype cbf_call =
    CbfControllerWArenaExtra cbf_args extra_args
  | CbfControllerWArenaWedge cbf_args mat vec
  | CbfControllerWArena cbf_args

fun base_args :: "cbf_call \<Rightarrow> cbf_args" where
  "base_args (CbfControllerWArenaExtra a e) = a"
| "base_args (CbfControllerWArenaWedge a Awg bwg) = a"
| "base_args (CbfControllerWArena a) = a"



text \<open>
  The functions of \<^verbatim>\<open>auxiliary\<close> of which the spec fixes no formula are arguments of the
  driver: \<open>huilController\<close> and \<open>extraRobotDynamics\<close> with the arguments of their calls,
  \<open>cbfController\<close> for the three safety filters, which may fail.
\<close>

record auxiliary =
  huilController :: "vec \<Rightarrow> int \<Rightarrow> int \<Rightarrow> int \<Rightarrow> int \<Rightarrow> real \<Rightarrow> int \<Rightarrow> vec"
  cbfController :: "cbf_call \<Rightarrow> py_error + vec"
  extraRobotDynamics :: "int \<Rightarrow> int \<Rightarrow> real \<Rightarrow> int \<Rightarrow> vec"

subsection \<open>Simulation state (lines 134-175)\<close>

text \<open>
  The logging block at lines 207-229 reads the names \<^verbatim>\<open>self\<close>, \<^verbatim>\<open>time\<close>, \<^verbatim>\<open>uhuilx\<close> and
  \<^verbatim>\<open>uhuily\<close>. \<^verbatim>\<open>main.py\<close> binds none of them; \<open>ambient\<close> holds what the star import
  binds them to, \<open>None\<close> for a name that is not bound. \<open>logger\<close> has the attributes read
  from \<^verbatim>\<open>self\<close>.
\<close>

record logger =
  cbf_cm :: vec
  cbf_oa :: vec
  controller :: vec
  nom_controller :: vec

record ambient =
  self :: "logger option"
  time :: "real option"
  uhuilx :: "real option"
  uhuily :: "real option"

text \<open>
  \<open>p\<close> and \<open>huil_p\<close> are kept column by column: \<open>p st ! t\<close> is \<^verbatim>\<open>p[:,t]\<close>. A data frame is
  the list of its rows.
\<close>

record sim_state =
  p :: "vec list"
  huil_p :: "vec list"
  df_cbf_cm :: "vec list"
  df_cbf_oa :: "vec list"
  df_controller :: "vec list"
  df_nom_controller :: "vec list"
  df_huil_controller :: "vec list"
  env :: ambient

definition initial_state :: "config \<Rightarrow> ambient \<Rightarrow> vec \<Rightarrow> py_error + sim_state" where
  "initial_state cfg amb r =
     (let T = max_time_size cfg; n2 = number_robots cfg * dim in
      if T < 0 then Inl ValueError
      else if T = 0 then Inl IndexError
      else if length r \<noteq> n2 then Inl ValueError
      else Inr \<lparr> p = (replicate (nat T) (replicate n2 0))[0 := initial_p cfg r],
                 huil_p = (replicate (nat T) (replicate dim 0))[0 := initial_huil_p],
                 df_cbf_cm = [], df_cbf_oa = [], df_controller = [],
                 df_nom_controller = [], df_huil_controller = [], env = amb \<rparr>)"

subsection \<open>Simulation loop (lines 177-229)\<close>

definition nominal :: "precalc \<Rightarrow> nat \<Rightarrow> sim_state \<Rightarrow> vec" where
  "nominal pc i st = formationController (L_G (gr pc)) (p st ! i) (p_d pc)"

text \<open>Lines 183-187: the HuIL controller is called only when there is no extra robot.\<close>

definition huil_override :: "config \<Rightarrow> auxiliary \<Rightarrow> nat \<Rightarrow> vec \<Rightarrow> vec" where
  "huil_override cfg aux i u_nom =
     (if extra_robot cfg then u_nom
      else huilController aux u_nom (huil cfg) (human_robot cfg) (int i)
             (max_time_size cfg) (v_huil cfg) (division cfg))"

definition base_of :: "config \<Rightarrow> precalc \<Rightarrow> vec \<Rightarrow> vec \<Rightarrow> cbf_args" where
  "base_of cfg pc pv u_n =
     \<lparr> arg_p = pv, arg_u_n = u_n, arg_cm = cm cfg, arg_oa = oa cfg,
       arg_d_cm = d_cm cfg, arg_d_oa = d_oa cfg,
       arg_number_robots = number_robots cfg, arg_edges = edges (gr pc),
       arg_dim = dim, arg_alpha = alpha cfg,
       arg_A_arena = A_arena pc, arg_b_arena = b_arena pc,
       arg_xmax = real_of_int (x_max cfg), arg_xmin = - real_of_int (x_max cfg),
       arg_ymax = real_of_int (y_max cfg), arg_ymin = - real_of_int (y_max cfg) \<rparr>"

text \<open>Lines 189-196: which safety filter is called, and with which arguments.\<close>

definition filter_call :: "config \<Rightarrow> precalc \<Rightarrow> vec \<Rightarrow> vec \<Rightarrow> vec \<Rightarrow> cbf_call" where
  "filter_call cfg pc pv u_n hp =
     (if extra_robot cfg then
        CbfControllerWArenaExtra (base_of cfg pc pv u_n)
          \<lparr> arg_A_extra = A_extra pc, arg_b_extra = b_extra pc, arg_d_extra = d_oa cfg,
            arg_huil_p = hp, arg_vx = v_huil cfg, arg_vy = v_huil cfg \<rparr>
      else if wedge cfg then
        CbfControllerWArenaWedge (base_of cfg pc pv u_n) (A_wedge pc) (b_wedge pc)
      else CbfControllerWArena (base_of cfg pc pv u_n))"

text \<open>
  Lines 198-200: \<^verbatim>\<open>pdot = systemDynamics(p[:,i], u)\<close>,
  \<^verbatim>\<open>p[:,i+1] = pdot*(1/freq) + p[:,i]\<close>. The command has the dimension of the state;
  a vector of another length is taken not to add (numpy would still broadcast a vector
  of length one). \<open>freq\<close> is not zero in the loop: with \<open>freq = 0\<close> there is no column 0
  to initialise and the script stops before.
\<close>

definition euler :: "config \<Rightarrow> vec \<Rightarrow> vec \<Rightarrow> py_error + vec" where
  "euler cfg pdot pv =
     (if length pdot = length pv
      then Inr (map2 (\<lambda>d x. d * (1 / real_of_int (freq cfg)) + x) pdot pv)
      else Inl ValueError)"

definition agent_velocity :: "config \<Rightarrow> auxiliary \<Rightarrow> nat \<Rightarrow> vec" where
  "agent_velocity cfg aux i =
     extraRobotDynamics aux (int i) (max_time_size cfg) (v_huil cfg) (division cfg)"

text \<open>Lines 202-205: the extra robot moves only when it is there.\<close>

definition update_extra :: "config \<Rightarrow> auxiliary \<Rightarrow> nat \<Rightarrow> sim_state \<Rightarrow> py_error + sim_state" where
  "update_extra cfg aux i st =
     (if extra_robot cfg then
        (if Suc i < length (huil_p st) then
           (case euler cfg (agent_velocity cfg aux i) (huil_p st ! i) of
              Inl e \<Rightarrow> Inl e
            | Inr q \<Rightarrow> Inr (st\<lparr>huil_p := (huil_p st)[Suc i := q]\<rparr>))
         else Inl IndexError)
      else Inr st)"

text \<open>The call of the safety filter in pass \<open>i\<close> of the loop.\<close>

definition step_call :: "config \<Rightarrow> auxiliary \<Rightarrow> precalc \<Rightarrow> nat \<Rightarrow> sim_state \<Rightarrow> cbf_call" where
  "step_call cfg aux pc i st =
     filter_call cfg pc (p st ! i) (huil_override cfg aux i (nominal pc i st))
       (huil_p st ! i)"

text \<open>
  Lines 180-205: one pass of the loop body up to the logging block. \<open>p\<close> and \<open>huil_p\<close>
  have the same number of columns, \<open>max_time_size\<close>; a column index beyond it raises
  IndexError.
\<close>

definition loop_core :: "config \<Rightarrow> auxiliary \<Rightarrow> precalc \<Rightarrow> nat \<Rightarrow> sim_state
    \<Rightarrow> py_error + sim_state" where
  "loop_core cfg aux pc i st =
     (if Suc i < length (p st) \<and> Suc i < length (huil_p st) then
        (case cbfController aux (step_call cfg aux pc i st) of
           Inl e \<Rightarrow> Inl e
         | Inr u \<Rightarrow>
             (case euler cfg (systemDynamics (p st ! i) u) (p st ! i) of
                Inl e \<Rightarrow> Inl e
              | Inr q \<Rightarrow> update_extra cfg aux i (st\<lparr>p := (p st)[Suc i := q]\<rparr>)))
      else Inl IndexError)"

text \<open>
  One row of a data frame: \<^verbatim>\<open>a[0] = time\<close>, then
  \<^verbatim>\<open>pd.DataFrame(np.array([a]), columns=cols)\<close>, which needs as many entries as columns.
\<close>

definition log_row :: "vec \<Rightarrow> real \<Rightarrow> nat \<Rightarrow> py_error + vec" where
  "log_row a t ncols =
     (if a = [] then Inl IndexError
      else if length a \<noteq> ncols then Inl ValueError
      else Inr (a[0 := t]))"

text \<open>
  Lines 207-229. The rows appended are \<^verbatim>\<open>self.cbf_cm\<close>, \<^verbatim>\<open>self.cbf_oa\<close>,
  \<^verbatim>\<open>self.controller\<close>, \<^verbatim>\<open>self.nom_controller\<close> and \<^verbatim>\<open>[time, uhuilx, uhuily]\<close>.
\<close>

definition log_block :: "config \<Rightarrow> precalc \<Rightarrow> sim_state \<Rightarrow> py_error + sim_state" where
  "log_block cfg pc st =
     (case time (env st) of
        None \<Rightarrow> Inl NameError
      | Some t \<Rightarrow>
     (case self (env st) of
        None \<Rightarrow> Inl NameError
      | Some lg \<Rightarrow>
     (case log_row (cbf_cm lg) t (1 + length (edges (gr pc))) of
        Inl e \<Rightarrow> Inl e
      | Inr r1 \<Rightarrow>
     (case log_row (cbf_oa lg) t (1 + length (edges (gr pc))) of
        Inl e \<Rightarrow> Inl e
      | Inr r2 \<Rightarrow>
     (case log_row (controller lg) t (1 + 2 * number_robots cfg) of
        Inl e \<Rightarrow> Inl e
      | Inr r3 \<Rightarrow>
     (case log_row (nom_controller lg) t (1 + 2 * number_robots cfg) of
        Inl e \<Rightarrow> Inl e
      | Inr r4 \<Rightarrow>
     (case uhuilx (env st) of
        None \<Rightarrow> Inl NameError
      | Some ux \<Rightarrow>
     (case uhuily (env st) of
        None \<Rightarrow> Inl NameError
      | Some uy \<Rightarrow>
          Inr (st\<lparr> df_cbf_cm := df_cbf_cm st @ [r1],
                   df_cbf_oa := df_cbf_oa st @ [r2],
                   df_controller := df_controller st @ [r3],
                   df_nom_controller := df_nom_controller st @ [r4],
                   df_huil_controller := df_huil_controller st @ [[t, ux, uy]],
                   env := (env st)\<lparr> self := Some \<lparr> cbf_cm = r1, cbf_oa = r2,
                            controller = r3, nom_controller = r4 \<rparr> \<rparr> \<rparr>)))))))))"

definition loop_body :: "config \<Rightarrow> auxiliary \<Rightarrow> precalc \<Rightarrow> nat \<Rightarrow> sim_state
    \<Rightarrow> py_error + sim_state" where
  "loop_body cfg aux pc i st =
     (case loop_core cfg aux pc i st of
        Inl e \<Rightarrow> Inl e
      | Inr st' \<Rightarrow> log_block cfg pc st')"

fun sim_loop :: "config \<Rightarrow> auxiliary \<Rightarrow> precalc \<Rightarrow> nat list \<Rightarrow> sim_state
    \<Rightarrow> py_error + sim_state" where
  "sim_loop cfg aux pc [] st = Inr st"
| "sim_loop cfg aux pc (i # rest) st =
     (case loop_body cfg aux pc i st of
        Inl e \<Rightarrow> Inl e
      | Inr st' \<Rightarrow> sim_loop cfg aux pc rest st')"

text \<open>\<^verbatim>\<open>range(max_time_size-1)\<close>\<close>

definition step_indices :: "config \<Rightarrow> nat list" where
  "step_indices cfg = [0..<nat (max_time_size cfg - 1)]"

definition simulate :: "config \<Rightarrow> auxiliary \<Rightarrow> ambient \<Rightarrow> vec \<Rightarrow> py_error + sim_state" where
  "simulate cfg aux amb r =
     (case precalculate cfg of
        Inl e \<Rightarrow> Inl e
      | Inr pc \<Rightarrow>
          (case initial_state cfg amb r of
             Inl e \<Rightarrow> Inl e
           | Inr st \<Rightarrow> sim_loop cfg aux pc (step_indices cfg) st))"

subsection \<open>Small configurations used as examples\<close>

text \<open>
  Two robots with desired offsets \<open>(0, 2)\<close> and \<open>(0, -2)\<close>, each the other's neighbour, and
  three time points; everything else as in \<^verbatim>\<open>main.py\<close>.
\<close>

definition pair_config :: config where
  "pair_config =
     default_config\<lparr> formation_positions := [[0, 2], [0, - 2]], neighbours := [[2], [1]],
       human_robot := 2, max_T := 1, freq := 3 \<rparr>"

definition pair_precalc :: precalc where
  "pair_precalc =
     \<lparr> gr = \<lparr> number_neighbours = [1, 1], edges = [(1, 2)], L_G = [[1, - 1], [0, 1]] \<rparr>,
       p_d = [0, 2, 0, - 2],
       A_arena = [[- 1, 0, 0, 0], [1, 0, 0, 0], [0, - 1, 0, 0], [0, 1, 0, 0],
                  [0, 0, - 1, 0], [0, 0, 1, 0], [0, 0, 0, - 1], [0, 0, 0, 1]],
       b_arena = [0, 0, 0, 0, 0, 0, 0, 0],
       A_wedge = [[- (1 / 2), - 1, 0, 0], [- (1 / 2), 1, 0, 0],
                  [0, 0, - (1 / 2), - 1], [0, 0, - (1 / 2), 1]],
       b_wedge = [0, 0, 0, 0],
       A_extra = [[0, 0, 0, 0], [0, 0, 0, 0]],
       b_extra = [0, 0] \<rparr>"

text \<open>
  A filter that hands the command back when it satisfies the arena rows and fails
  otherwise, a HuIL controller that overwrites the command, and an agent that moves along
  \<open>x\<close> at the speed it is given.
\<close>

definition checking_filter :: "cbf_call \<Rightarrow> py_error + vec" where
  "checking_filter c =
     (let a = base_args c in
      if length (arg_u_n a) = length (arg_p a) \<and>
         feasible (arg_A_arena a)
           (arena_rhs (arg_alpha a) (arg_xmax a) (arg_xmin a) (arg_ymax a) (arg_ymin a)
              (arg_number_robots a) (arg_p a))
           (arg_u_n a)
      then Inr (arg_u_n a) else Inl SolverError)"

definition sample_auxiliary :: auxiliary where
  "sample_auxiliary =
     \<lparr> huilController = (\<lambda>u h r i T v d. map (\<lambda>x. v) u),
       cbfController = checking_filter,
       extraRobotDynamics = (\<lambda>i T v d. [v, 0]) \<rparr>"

definition unbound_ambient :: ambient where
  "unbound_ambient = \<lparr> self = None, time = None, uhuilx = None, uhuily = None \<rparr>"

definition bound_ambient :: ambient where
  "bound_ambient =
     \<lparr> self = Some \<lparr> cbf_cm = [0, 0], cbf_oa = [0, 0], controller = [0, 0, 0, 0, 0],
                     nom_controller = [0, 0, 0, 0, 0] \<rparr>,
       time = Some 0, uhuilx = Some 0, uhuily = Some 0 \<rparr>"

definition sample_draw :: vec where
  "sample_draw = [1 / 2, 3 / 5, 1 / 2, 2 / 5]"

text \<open>The same with the wedge selected and no extra robot.\<close>

definition wedge_config :: config where
  "wedge_config = pair_config\<lparr> wedge := True, extra_robot := False \<rparr>"

text \<open>
  The state of \<open>pair_config\<close> before the loop for the draw \<open>sample_draw\<close>, and after the
  first pass of the loop body up to the logging block.
\<close>

definition pair_state :: sim_state where
  "pair_state =
     \<lparr> p = [[0, 5 / 2, 0, - (5 / 2)], [0, 0, 0, 0], [0, 0, 0, 0]],
       huil_p = [[- 5, 20], [0, 0], [0, 0]],
       df_cbf_cm = [], df_cbf_oa = [], df_controller = [], df_nom_controller = [],
       df_huil_controller = [], env = bound_ambient \<rparr>"

definition pair_state_1 :: sim_state where
  "pair_state_1 =
     pair_state\<lparr> p := [[0, 5 / 2, 0, - (5 / 2)], [0, 13 / 6, 0, - (7 / 3)], [0, 0, 0, 0]],
       huil_p := [[- 5, 20], [- (25 / 6), 20], [0, 0]] \<rparr>"

text \<open>A filter that always answers with the zero command.\<close>

definition halting_auxiliary :: auxiliary where
  "halting_auxiliary =
     sample_auxiliary\<lparr> cbfController := (\<lambda>c. Inr (map (\<lambda>x. 0) (arg_p (base_args c)))) \<rparr>"

text \<open>
  The desired formation of \<^verbatim>\<open>main.py\<close> as the vector \<open>p_d\<close>, and the positions that differ
  from it in the \<open>x\<close> coordinate of the first robot only.
\<close>

definition default_p_d :: vec where
  "default_p_d = map real_of_int (concat default_formation)"

definition displaced_p :: vec where
  "displaced_p = default_p_d[0 := 1]"

text \<open>
  A draw of the generator for the 21 robots of \<^verbatim>\<open>main.py\<close>, \<open>0, 1/42, ..., 41/42\<close>, and the
  state before the loop that the default configuration has for it.
\<close>

definition default_draw :: vec where
  "default_draw = map (\<lambda>k. real k / 42) [0..<42]"

definition default_start :: sim_state where
  "default_start =
     \<lparr> p = (replicate 3000 (replicate 42 0))[0 := initial_p default_config default_draw],
       huil_p = (replicate 3000 (replicate 2 0))[0 := initial_huil_p],
       df_cbf_cm = [], df_cbf_oa = [], df_controller = [], df_nom_controller = [],
       df_huil_controller = [], env = unbound_ambient \<rparr>"

subsection \<open>Staying inside the arena\<close>

text \<open>A position vector of the right length with every robot inside the arena.\<close>

definition in_arena :: "config \<Rightarrow> vec \<Rightarrow> bool" where
  "in_arena cfg pv =
     (length pv = 2 * number_robots cfg \<and>
      list_all (\<lambda>i. - real_of_int (x_max cfg) \<le> pv ! (2 * i) \<and>
                     pv ! (2 * i) \<le> real_of_int (x_max cfg) \<and>
                     - real_of_int (y_max cfg) \<le> pv ! (2 * i + 1) \<and>
                     pv ! (2 * i + 1) \<le> real_of_int (y_max cfg))
        [0..<number_robots cfg])"

text \<open>
  Modelled from the spec: what a feasible solve of a \<^verbatim>\<open>cbfController*\<close> function of
  \<^verbatim>\<open>auxiliary\<close> means for the arena rows. Whenever a filter called as in the loop returns
  a command, the command satisfies \<open>A_arena u \<le> b\<close> for the right-hand side \<open>arena_rhs\<close>
  at the positions it was called with.
\<close>

definition respects_arena :: "config \<Rightarrow> precalc \<Rightarrow> auxiliary \<Rightarrow> bool" where
  "respects_arena cfg pc aux =
     (\<forall>pv u_n hp u.
        cbfController aux (filter_call cfg pc pv u_n hp) = Inr u \<longrightarrow>
        feasible (A_arena pc)
          (arena_rhs (alpha cfg) (real_of_int (x_max cfg)) (- real_of_int (x_max cfg))
             (real_of_int (y_max cfg)) (- real_of_int (y_max cfg)) (number_robots cfg) pv)
          u)"

text \<open>
  The state of \<open>pair_config\<close> after the first pass with its logging, and after the second
  pass up to the logging block.
\<close>

definition pair_logged_1 :: sim_state where
  "pair_logged_1 =
     pair_state_1\<lparr> df_cbf_cm := [[0, 0]], df_cbf_oa := [[0, 0]],
       df_controller := [[0, 0, 0, 0, 0]], df_nom_controller := [[0, 0, 0, 0, 0]],
       df_huil_controller := [[0, 0, 0]] \<rparr>"

definition pair_core_2 :: sim_state where
  "pair_core_2 =
     pair_logged_1\<lparr>
       p := [[0, 5 / 2, 0, - (5 / 2)], [0, 13 / 6, 0, - (7 / 3)], [0, 2, 0, - (20 / 9)]],
       huil_p := [[- 5, 20], [- (25 / 6), 20], [- (10 / 3), 20]] \<rparr>"

section \<open>Properties\<close>

subsection \<open>Facts about the examples\<close>

lemma length_default_formation: "length default_formation = 21"
  by (simp add: default_formation_def)

lemma number_robots_default: "number_robots default_config = 21"
  by (simp add: number_robots_def default_config_def length_default_formation)

lemma precalculate_pair: "precalculate pair_config = Inr pair_precalc"
  by (simp add: precalculate_def pair_config_def default_config_def pair_precalc_def
      build_graph_def number_robots_def zeros_def set_entry_def np_index_def upt_conv_Cons
      reshape_formation_def dim_def Aw_def x_max_def y_max_def huil_columns_ok_def
      arena_loop_def wedge_loop_def set_block_def As_def eval_nat_numeral)

subsection \<open>Initial positions\<close>

lemma initial_p_bounds:
  assumes "\<forall>x\<in>set r. 0 \<le> x \<and> x < 1" and "0 < x_max cfg"
  shows "\<forall>c\<in>set (initial_p cfg r).
           - real_of_int (x_max cfg) / 2 \<le> c \<and> c < real_of_int (x_max cfg) / 2"
proof
  fix c assume "c \<in> set (initial_p cfg r)"
  then obtain x where x: "x \<in> set r"
    and c: "c = real_of_int (x_max cfg) * x - real_of_int (x_max cfg) / 2"
    by (auto simp: initial_p_def)
  from x assms(1) have x01: "0 \<le> x" "x < 1" by auto
  from assms(2) have pos: "0 < real_of_int (x_max cfg)" by simp
  have "0 \<le> real_of_int (x_max cfg) * x" using x01 pos by simp
  moreover have "real_of_int (x_max cfg) * x < real_of_int (x_max cfg) * 1"
    using x01 pos by (intro mult_strict_left_mono) auto
  ultimately show "- real_of_int (x_max cfg) / 2 \<le> c \<and> c < real_of_int (x_max cfg) / 2"
    using x01 pos unfolding c by simp
qed

lemma initial_state_columns:
  assumes "initial_state cfg amb r = Inr st"
  shows "p st ! 0 = initial_p cfg r" and "huil_p st ! 0 = initial_huil_p"
    and "length (p st) = nat (max_time_size cfg)"
    and "length (huil_p st) = nat (max_time_size cfg)"
    and "0 < max_time_size cfg" and "length r = number_robots cfg * dim"
    and "df_cbf_cm st = []" and "df_cbf_oa st = []" and "df_controller st = []"
    and "df_nom_controller st = []" and "df_huil_controller st = []"
  using assms by (auto simp: initial_state_def Let_def split: if_splits)

lemma length_default_draw: "length default_draw = 42"
  by (simp add: default_draw_def)

lemma max_time_size_default: "max_time_size default_config = 3000"
  by (simp add: max_time_size_def default_config_def)

lemma initial_state_default:
  "length r = 42 \<Longrightarrow>
   initial_state default_config amb r =
     Inr \<lparr> p = (replicate 3000 (replicate 42 0))[0 := initial_p default_config r],
           huil_p = (replicate 3000 (replicate 2 0))[0 := initial_huil_p],
           df_cbf_cm = [], df_cbf_oa = [], df_controller = [], df_nom_controller = [],
           df_huil_controller = [], env = amb \<rparr>"
  by (simp add: initial_state_def Let_def max_time_size_default number_robots_default dim_def)

lemma initial_state_default_draw:
  "initial_state default_config unbound_ambient default_draw = Inr default_start"
  by (simp only: initial_state_default [OF length_default_draw] default_start_def)

lemma default_draw_range: "\<forall>x\<in>set default_draw. 0 \<le> x \<and> x < 1"
  by (auto simp: default_draw_def)

lemma default_limits: "x_max default_config = 25" "y_max default_config = 25"
  by (simp_all add: x_max_def y_max_def default_config_def)

text \<open>
  Claim C10. For a draw \<open>r\<close> in \<open>[0, 1)\<close> the first column of \<open>p\<close> is \<open>x_max * r - x_max / 2\<close>
  coordinate by coordinate, two coordinates per robot; every coordinate lies in
  \<open>[-x_max/2, x_max/2)\<close>, so every robot is strictly inside the arena, \<open>-x_max < x < x_max\<close>
  and \<open>-y_max < y < y_max\<close>; the first column of \<open>huil_p\<close> is \<open>(-5, 20)\<close> whatever is drawn.
  (\<open>x_max\<close> and \<open>y_max\<close> are 25 in \<^verbatim>\<open>main.py\<close>; the statement needs \<open>0 < x_max < 2 y_max\<close>.)
\<close>

theorem initial_positions_are_scaled_draw:
  assumes "initial_state cfg amb r = Inr st"
    and "\<forall>x\<in>set r. 0 \<le> x \<and> x < 1"
    and "0 < x_max cfg" and "x_max cfg < 2 * y_max cfg"
  shows "p st ! 0 = map (\<lambda>x. real_of_int (x_max cfg) * x - real_of_int (x_max cfg) / 2) r \<and>
         length (p st ! 0) = 2 * number_robots cfg \<and>
         (\<forall>c\<in>set (p st ! 0).
            - real_of_int (x_max cfg) / 2 \<le> c \<and> c < real_of_int (x_max cfg) / 2) \<and>
         (\<forall>i<number_robots cfg.
            - real_of_int (x_max cfg) < p st ! 0 ! (2 * i) \<and>
            p st ! 0 ! (2 * i) < real_of_int (x_max cfg) \<and>
            - real_of_int (y_max cfg) < p st ! 0 ! (2 * i + 1) \<and>
            p st ! 0 ! (2 * i + 1) < real_of_int (y_max cfg)) \<and>
         huil_p st ! 0 = [- 5, 20]"
proof -
  let ?n = "number_robots cfg"
  have p0: "p st ! 0 = initial_p cfg r" and h0: "huil_p st ! 0 = initial_huil_p"
    and lr: "length r = ?n * dim"
    using initial_state_columns(1,2,6) [OF assms(1)] by simp_all
  have len: "length (initial_p cfg r) = 2 * ?n" using lr by (simp add: initial_p_def dim_def)
  have b: "\<forall>c\<in>set (initial_p cfg r).
           - real_of_int (x_max cfg) / 2 \<le> c \<and> c < real_of_int (x_max cfg) / 2"
    using initial_p_bounds [OF assms(2,3)] .
  have xr: "0 < real_of_int (x_max cfg)" using assms(3) by simp
  have yr: "real_of_int (x_max cfg) / 2 < real_of_int (y_max cfg)"
  proof -
    from assms(4) have "real_of_int (x_max cfg) < real_of_int (2 * y_max cfg)"
      by (simp only: of_int_less_iff)
    then show ?thesis by simp
  qed
  have robots: "\<forall>i<?n.
            - real_of_int (x_max cfg) < initial_p cfg r ! (2 * i) \<and>
            initial_p cfg r ! (2 * i) < real_of_int (x_max cfg) \<and>
            - real_of_int (y_max cfg) < initial_p cfg r ! (2 * i + 1) \<and>
            initial_p cfg r ! (2 * i + 1) < real_of_int (y_max cfg)"
  proof (intro allI impI)
    fix i assume i: "i < ?n"
    then have "initial_p cfg r ! (2 * i) \<in> set (initial_p cfg r)"
      and "initial_p cfg r ! (2 * i + 1) \<in> set (initial_p cfg r)"
      using len by simp_all
    with b have "- real_of_int (x_max cfg) / 2 \<le> initial_p cfg r ! (2 * i)"
      "initial_p cfg r ! (2 * i) < real_of_int (x_max cfg) / 2"
      "- real_of_int (x_max cfg) / 2 \<le> initial_p cfg r ! (2 * i + 1)"
      "initial_p cfg r ! (2 * i + 1) < real_of_int (x_max cfg) / 2"
      by blast+
    with xr yr show "- real_of_int (x_max cfg) < initial_p cfg r ! (2 * i) \<and>
            initial_p cfg r ! (2 * i) < real_of_int (x_max cfg) \<and>
            - real_of_int (y_max cfg) < initial_p cfg r ! (2 * i + 1) \<and>
            initial_p cfg r ! (2 * i + 1) < real_of_int (y_max cfg)"
      by simp
  qed
  have v: "initial_p cfg r =
      map (\<lambda>x. real_of_int (x_max cfg) * x - real_of_int (x_max cfg) / 2) r"
    by (simp only: initial_p_def)
  show ?thesis
    unfolding p0 h0 using v len b robots by (simp add: initial_huil_p_def)
qed

theorem initial_positions_are_scaled_draw_witness:
  "p default_start ! 0 ! 0 = - (25 / 2) \<and>
   p default_start ! 0 ! 1 = 25 * (1 / 42) - 25 / 2 \<and>
   p default_start ! 0 ! 41 = 25 * (41 / 42) - 25 / 2 \<and>
   length (p default_start ! 0) = 42 \<and>
   list_all (\<lambda>c. - (25 / 2) \<le> c \<and> c < 25 / 2) (p default_start ! 0) \<and>
   huil_p default_start ! 0 = [- 5, 20]"
proof -
  have x: "0 < x_max default_config" "x_max default_config < 2 * y_max default_config"
    by (simp_all add: default_limits)
  note t = initial_positions_are_scaled_draw
             [OF initial_state_default_draw default_draw_range x]
  note t1 = t [THEN conjunct1]
  note t2 = t [THEN conjunct2, THEN conjunct1]
  note t3 = t [THEN conjunct2, THEN conjunct2, THEN conjunct1]
  note t5 = t [THEN conjunct2, THEN conjunct2, THEN conjunct2, THEN conjunct2]
  have m: "p default_start ! 0 = map (\<lambda>x. 25 * x - 25 / 2) default_draw"
    using t1 by (simp only: default_limits) simp
  have l: "length (p default_start ! 0) = 42"
    using t2 by (simp only: number_robots_default)
  have b: "list_all (\<lambda>c. - (25 / 2) \<le> c \<and> c < 25 / 2) (p default_start ! 0)"
    using t3 unfolding list_all_iff by (simp only: default_limits) simp
  have h: "huil_p default_start ! 0 = [- 5, 20]" by (rule t5)
  have d: "default_draw ! 0 = 0" "default_draw ! 1 = 1 / 42" "default_draw ! 41 = 41 / 42"
    by (simp_all add: default_draw_def del: upt.simps)
  have "p default_start ! 0 ! 0 = - (25 / 2)"
    and "p default_start ! 0 ! 1 = 25 * (1 / 42) - 25 / 2"
    and "p default_start ! 0 ! 41 = 25 * (41 / 42) - 25 / 2"
    unfolding m using d by (simp_all add: length_default_draw)
  with l b h show ?thesis by simp
qed

subsection \<open>One pass of the loop on the example\<close>


lemma initial_state_pair: "initial_state pair_config bound_ambient sample_draw = Inr pair_state"
  by (simp add: initial_state_def pair_config_def default_config_def max_time_size_def
      number_robots_def dim_def sample_draw_def initial_p_def x_max_def initial_huil_p_def
      pair_state_def eval_nat_numeral)

lemma nominal_pair: "nominal pair_precalc 0 pair_state = [0, - 1, 0, 1 / 2]"
  by (simp add: nominal_def pair_precalc_def pair_state_def formationController_def
      kron_def I2_def mat_vec_def dot_def)

lemma loop_core_pair:
  "loop_core pair_config sample_auxiliary pair_precalc 0 pair_state = Inr pair_state_1"
  by (simp add: loop_core_def step_call_def filter_call_def huil_override_def base_of_def
      nominal_pair, simp add: pair_config_def default_config_def sample_auxiliary_def
      checking_filter_def pair_precalc_def pair_state_def pair_state_1_def
      feasible_def arena_rhs_def mat_vec_def dot_def number_robots_def x_max_def y_max_def
      upt_conv_Cons euler_def systemDynamics_def update_extra_def agent_velocity_def)

subsection \<open>Dispatch of the HuIL controller and of the safety filters\<close>

text \<open>
  Claim C5. With an extra robot (obstacle mode) the command handed to the safety filter
  is the nominal formation command itself, whatever the HuIL flag and whatever the HuIL
  controller would return; the HuIL controller's result is handed over only when there
  is no extra robot.
\<close>


theorem huil_override_excluded_by_extra_robot:
  "(extra_robot cfg \<longrightarrow>
      arg_u_n (base_args (step_call cfg aux pc i st)) = nominal pc i st) \<and>
   (\<not> extra_robot cfg \<longrightarrow>
      arg_u_n (base_args (step_call cfg aux pc i st)) =
        huilController aux (nominal pc i st) (huil cfg) (human_robot cfg) (int i)
          (max_time_size cfg) (v_huil cfg) (division cfg))"
  by (simp add: step_call_def filter_call_def huil_override_def base_of_def)

theorem huil_override_excluded_by_extra_robot_witness:
  "extra_robot pair_config \<and> huil pair_config = 1 \<and>
   arg_u_n (base_args (step_call pair_config sample_auxiliary pair_precalc 0 pair_state))
     = [0, - 1, 0, 1 / 2] \<and>
   \<not> extra_robot wedge_config \<and>
   arg_u_n (base_args (step_call wedge_config sample_auxiliary pair_precalc 0 pair_state))
     = [5 / 2, 5 / 2, 5 / 2, 5 / 2]"
proof -
  have n: "nominal pair_precalc 0 pair_state = [0, - 1, 0, 1 / 2]"
    by (simp add: nominal_def pair_precalc_def pair_state_def formationController_def
        kron_def I2_def mat_vec_def dot_def)
  have e: "extra_robot pair_config" "\<not> extra_robot wedge_config" "huil pair_config = 1"
    by (simp_all add: pair_config_def wedge_config_def default_config_def)
  show ?thesis
    using huil_override_excluded_by_extra_robot
            [of pair_config sample_auxiliary pair_precalc 0 pair_state]
          huil_override_excluded_by_extra_robot
            [of wedge_config sample_auxiliary pair_precalc 0 pair_state] n e
    by (simp add: sample_auxiliary_def wedge_config_def pair_config_def default_config_def)
qed



subsection \<open>Integration\<close>


lemma euler_map2:
  "length d = length x \<Longrightarrow>
   map2 (\<lambda>d x. d * (1 / f) + x) d x = map2 (\<lambda>x v. x + v / (f::real)) x d"
  by (induction d x rule: list_induct2) simp_all

lemma euler_Inr:
  assumes "euler cfg d x = Inr q"
  shows "length d = length x"
    and "q = map2 (\<lambda>x v. x + v / real_of_int (freq cfg)) x d"
proof -
  show len: "length d = length x"
    using assms unfolding euler_def by (cases "length d = length x") auto
  then have "euler cfg d x = Inr (map2 (\<lambda>d x. d * (1 / real_of_int (freq cfg)) + x) d x)"
    unfolding euler_def by (simp only: if_True refl)
  with assms have "q = map2 (\<lambda>d x. d * (1 / real_of_int (freq cfg)) + x) d x"
    by (simp only: sum.inject)
  then show "q = map2 (\<lambda>x v. x + v / real_of_int (freq cfg)) x d"
    by (simp only: euler_map2 [OF len])
qed

lemma update_extra_Inr:
  assumes "update_extra cfg aux i st = Inr st'"
  shows "p st' = p st"
    and "huil_p st' =
           (if extra_robot cfg
            then (huil_p st)[Suc i :=
                   map2 (\<lambda>x v. x + v / real_of_int (freq cfg)) (huil_p st ! i)
                     (agent_velocity cfg aux i)]
            else huil_p st)"
    and "df_cbf_cm st' = df_cbf_cm st" and "df_cbf_oa st' = df_cbf_oa st"
    and "df_controller st' = df_controller st"
    and "df_nom_controller st' = df_nom_controller st"
    and "df_huil_controller st' = df_huil_controller st" and "env st' = env st"
proof -
  show "huil_p st' =
           (if extra_robot cfg
            then (huil_p st)[Suc i :=
                   map2 (\<lambda>x v. x + v / real_of_int (freq cfg)) (huil_p st ! i)
                     (agent_velocity cfg aux i)]
            else huil_p st)"
  proof (cases "extra_robot cfg")
    case False
    with assms show ?thesis by (simp add: update_extra_def)
  next
    case True
    with assms obtain q where q: "euler cfg (agent_velocity cfg aux i) (huil_p st ! i) = Inr q"
      and st': "st' = st\<lparr>huil_p := (huil_p st)[Suc i := q]\<rparr>"
      by (auto simp only: update_extra_def if_True split: if_splits sum.splits)
    from euler_Inr(2) [OF q] st' True show ?thesis by simp
  qed
qed (use assms in \<open>auto simp: update_extra_def split: if_splits sum.splits\<close>)

lemma loop_core_Inr:
  assumes "loop_core cfg aux pc i st = Inr st'"
  shows "\<exists>u. cbfController aux (step_call cfg aux pc i st) = Inr u \<and>
           length u = length (p st ! i) \<and>
           p st' = (p st)[Suc i :=
                     map2 (\<lambda>x v. x + v / real_of_int (freq cfg)) (p st ! i) u] \<and>
           huil_p st' =
             (if extra_robot cfg
              then (huil_p st)[Suc i :=
                     map2 (\<lambda>x v. x + v / real_of_int (freq cfg)) (huil_p st ! i)
                       (agent_velocity cfg aux i)]
              else huil_p st)"
proof -
  from assms obtain u q
    where u: "cbfController aux (step_call cfg aux pc i st) = Inr u"
      and q: "euler cfg (systemDynamics (p st ! i) u) (p st ! i) = Inr q"
      and x: "update_extra cfg aux i (st\<lparr>p := (p st)[Suc i := q]\<rparr>) = Inr st'"
    by (auto simp only: loop_core_def split: if_splits sum.splits)
  from euler_Inr [OF q]
  have len: "length u = length (p st ! i)"
    and qq: "q = map2 (\<lambda>x v. x + v / real_of_int (freq cfg)) (p st ! i) u"
    by (simp_all only: systemDynamics_def)
  from update_extra_Inr(1,2) [OF x] u len qq show ?thesis by simp
qed



subsection \<open>The quadratic program\<close>

lemma qp_objective_nonneg: "0 \<le> qp_objective u_nom u"
  unfolding qp_objective_def by (rule sum_list_nonneg) auto

lemma qp_objective_self: "qp_objective u_nom u_nom = 0"
  unfolding qp_objective_def by (induction u_nom) simp_all

lemma qp_objective_zero:
  "length u = length u_nom \<Longrightarrow> qp_objective u_nom u = 0 \<Longrightarrow> u = u_nom"
proof (induction u u_nom rule: list_induct2)
  case Nil
  then show ?case by simp
next
  case (Cons x xs y ys)
  have rest: "0 \<le> qp_objective ys xs" by (rule qp_objective_nonneg)
  from Cons.prems have s: "(x - y)\<^sup>2 + qp_objective ys xs = 0"
    by (simp add: qp_objective_def)
  have sq: "0 \<le> (x - y)\<^sup>2" by simp
  from s rest sq have "(x - y)\<^sup>2 = 0" and "qp_objective ys xs = 0"
    by (simp_all add: add_nonneg_eq_0_iff)
  with Cons.IH show ?case by simp
qed

lemma strictly_feasible_feasible: "strictly_feasible A b u \<Longrightarrow> feasible A b u"
  unfolding strictly_feasible_def feasible_def
  by (erule list_all2_mono) simp

text \<open>
  Claim C7. When the nominal command satisfies every row of the stacked system
  \<open>A u \<le> b\<close> with positive margin, the optimum of the quadratic program is the nominal
  command and nothing else: the filtered command equals \<open>u_nom\<close>.
\<close>

theorem feasible_nominal_is_the_optimum:
  assumes "strictly_feasible A b u_nom"
  shows "qp_solution A b u_nom u \<longleftrightarrow> u = u_nom"
proof
  assume sol: "qp_solution A b u_nom u"
  have f: "feasible A b u_nom" using assms by (rule strictly_feasible_feasible)
  from sol have len: "length u = length u_nom"
    and le: "qp_objective u_nom u \<le> qp_objective u_nom u_nom"
    using f by (auto simp: qp_solution_def)
  from le have "qp_objective u_nom u = 0"
    using qp_objective_nonneg [of u_nom u] by (simp add: qp_objective_self)
  with len show "u = u_nom" by (rule qp_objective_zero)
next
  assume "u = u_nom"
  then show "qp_solution A b u_nom u"
    using strictly_feasible_feasible [OF assms]
    by (simp add: qp_solution_def qp_objective_self qp_objective_nonneg)
qed

theorem feasible_nominal_is_the_optimum_witness:
  "strictly_feasible As [2, 3, 2, 3] [1, - 1] \<and>
   qp_solution As [2, 3, 2, 3] [1, - 1] [1, - 1] \<and>
   \<not> qp_solution As [2, 3, 2, 3] [1, - 1] [1, 0]"
proof -
  have s: "strictly_feasible As [2, 3, 2, 3] [1, - 1]"
    by (simp add: strictly_feasible_def As_def mat_vec_def dot_def)
  show ?thesis
    using feasible_nominal_is_the_optimum [OF s, of "[1, - 1]"]
          feasible_nominal_is_the_optimum [OF s, of "[1, 0]"] s
    by simp
qed

subsection \<open>The whole run\<close>

lemma loop_core_frame:
  assumes "loop_core cfg aux pc i st = Inr st'"
  shows "length (p st') = length (p st)" and "length (huil_p st') = length (huil_p st)"
    and "df_cbf_cm st' = df_cbf_cm st" and "df_cbf_oa st' = df_cbf_oa st"
    and "df_controller st' = df_controller st"
    and "df_nom_controller st' = df_nom_controller st"
    and "df_huil_controller st' = df_huil_controller st" and "env st' = env st"
    and "Suc i < length (p st)"
proof -
  from assms obtain u q
    where x: "update_extra cfg aux i (st\<lparr>p := (p st)[Suc i := q]\<rparr>) = Inr st'"
    by (auto simp only: loop_core_def split: if_splits sum.splits)
  from update_extra_Inr [OF x]
  show "length (p st') = length (p st)" and "length (huil_p st') = length (huil_p st)"
    and "df_cbf_cm st' = df_cbf_cm st" and "df_cbf_oa st' = df_cbf_oa st"
    and "df_controller st' = df_controller st"
    and "df_nom_controller st' = df_nom_controller st"
    and "df_huil_controller st' = df_huil_controller st" and "env st' = env st"
    by (simp_all split: if_splits)
  from assms show "Suc i < length (p st)"
    by (auto simp only: loop_core_def split: if_splits)
qed

lemma log_block_Inr:
  assumes "log_block cfg pc st = Inr st'"
  shows "p st' = p st" and "huil_p st' = huil_p st"
    and "length (df_cbf_cm st') = Suc (length (df_cbf_cm st))"
    and "length (df_cbf_oa st') = Suc (length (df_cbf_oa st))"
    and "length (df_controller st') = Suc (length (df_controller st))"
    and "length (df_nom_controller st') = Suc (length (df_nom_controller st))"
    and "length (df_huil_controller st') = Suc (length (df_huil_controller st))"
  using assms
  by (auto simp: log_block_def split: option.splits sum.splits)

lemma log_block_unbound:
  "time (env st) = None \<Longrightarrow> log_block cfg pc st = Inl NameError"
  by (simp add: log_block_def)

lemma loop_body_unbound:
  "time (env st) = None \<Longrightarrow> \<exists>e. loop_body cfg aux pc i st = Inl e"
  by (auto simp: loop_body_def log_block_unbound loop_core_frame(8) split: sum.splits)

lemma sim_loop_unbound:
  "time (env st) = None \<Longrightarrow> idx \<noteq> [] \<Longrightarrow> \<exists>e. sim_loop cfg aux pc idx st = Inl e"
  using loop_body_unbound [of st cfg aux pc "hd idx"]
  by (cases idx) auto

text \<open>
  With none of the names of the logging block bound, no run of two or more time points
  returns: the first pass raises in the logging block at the latest.
\<close>

lemma simulate_unbound:
  assumes "1 < max_time_size cfg"
  shows "\<exists>e. simulate cfg aux unbound_ambient r = Inl e"
proof (cases "precalculate cfg")
  case (Inl e)
  then show ?thesis by (simp add: simulate_def)
next
  case (Inr pc)
  show ?thesis
  proof (cases "initial_state cfg unbound_ambient r")
    case (Inl e)
    with Inr show ?thesis by (simp add: simulate_def)
  next
    case st0: (Inr st0)
    then have "env st0 = unbound_ambient"
      by (auto simp: initial_state_def Let_def split: if_splits)
    then have t: "time (env st0) = None" by (simp add: unbound_ambient_def)
    have "step_indices cfg \<noteq> []" using assms by (simp add: step_indices_def)
    from sim_loop_unbound [OF t this] Inr st0 show ?thesis by (simp add: simulate_def)
  qed
qed

subsection \<open>The Laplacian and the formation controller\<close>

lemma set_entry_other_row: "r \<noteq> i \<Longrightarrow> set_entry L i c v ! r = L ! r"
  by (simp add: set_entry_def)

lemma edge_loop_other_rows:
  "edge_loop n i js (es, L) = Inr (es', L') \<Longrightarrow> r \<noteq> i \<Longrightarrow> L' ! r = L ! r"
proof (induction js arbitrary: es L)
  case Nil
  then show ?case by simp
next
  case (Cons j js)
  show ?case
  proof (cases "(int i + 1, j) \<notin> set es \<and> (j, int i + 1) \<notin> set es")
    case True
    with Cons.prems(1) obtain c
      where r: "edge_loop n i js (es @ [(int i + 1, j)], set_entry L i c (- 1)) = Inr (es', L')"
      by (auto split: option.splits)
    from Cons.IH [OF r Cons.prems(2)] Cons.prems(2) show ?thesis
      by (simp add: set_entry_other_row)
  next
    case False
    with Cons.prems(1) have "edge_loop n i js (es, L) = Inr (es', L')" by auto
    from Cons.IH [OF this Cons.prems(2)] show ?thesis .
  qed
qed

lemma graph_loop_other_rows:
  "graph_loop n nbrs idx g = Inr g' \<Longrightarrow> r \<notin> set idx \<Longrightarrow> L_G g' ! r = L_G g ! r"
proof (induction idx arbitrary: g)
  case Nil
  then show ?case by simp
next
  case (Cons i rest)
  from Cons.prems(2) have ri: "r \<noteq> i" and rr: "r \<notin> set rest" by auto
  from Cons.prems(1) obtain es L
    where e: "edge_loop n i (nbrs ! i)
                (edges g, set_entry (L_G g) i i
                   (real ((number_neighbours g @ [length (nbrs ! i)]) ! i))) = Inr (es, L)"
      and l: "graph_loop n nbrs rest
                \<lparr> number_neighbours = number_neighbours g @ [length (nbrs ! i)],
                  edges = es, L_G = L \<rparr> = Inr g'"
    by (auto simp: Let_def split: if_splits sum.splits)
  from Cons.IH [OF l rr] edge_loop_other_rows [OF e ri] ri show ?case
    by (simp add: set_entry_other_row)
qed

lemma graph_loop_append:
  "graph_loop n nbrs (xs @ ys) g =
     (case graph_loop n nbrs xs g of Inl e \<Rightarrow> Inl e | Inr g1 \<Rightarrow> graph_loop n nbrs ys g1)"
  by (induction xs arbitrary: g) (auto simp: Let_def split: sum.splits)

lemma edge_loop_succeeds:
  "\<forall>j\<in>set js. 1 \<le> j \<and> j \<le> int n \<Longrightarrow> \<exists>es' L'. edge_loop n i js (es, L) = Inr (es', L')"
proof (induction js arbitrary: es L)
  case Nil
  then show ?case by simp
next
  case (Cons j js)
  then have j: "np_index n (j - 1) = Some (nat (j - 1))" by (auto simp: np_index_def)
  from Cons show ?case by (auto simp: j)
qed

lemma graph_loop_succeeds:
  assumes "\<forall>i\<in>set idx. i < length nbrs \<and> (\<forall>j\<in>set (nbrs ! i). 1 \<le> j \<and> j \<le> int n)"
    and "\<forall>t<length idx. idx ! t \<le> length (number_neighbours g) + t"
  shows "\<exists>g'. graph_loop n nbrs idx g = Inr g'"
  using assms
proof (induction idx arbitrary: g)
  case Nil
  then show ?case by simp
next
  case (Cons i rest)
  from Cons.prems(1) have il: "i < length nbrs"
    and js: "\<forall>j\<in>set (nbrs ! i). 1 \<le> j \<and> j \<le> int n" by auto
  from Cons.prems(2) have ik: "i \<le> length (number_neighbours g)" by force
  obtain es L where e: "edge_loop n i (nbrs ! i)
                (edges g, set_entry (L_G g) i i
                   (real ((number_neighbours g @ [length (nbrs ! i)]) ! i))) = Inr (es, L)"
    using edge_loop_succeeds [OF js] by blast
  let ?g = "\<lparr> number_neighbours = number_neighbours g @ [length (nbrs ! i)],
                  edges = es, L_G = L \<rparr>"
  have "\<forall>t<length rest. rest ! t \<le> length (number_neighbours ?g) + t"
  proof (intro allI impI)
    fix t assume "t < length rest"
    with Cons.prems(2) have "(i # rest) ! Suc t \<le> length (number_neighbours g) + Suc t"
      by (metis length_Cons Suc_less_eq)
    then show "rest ! t \<le> length (number_neighbours ?g) + t" by simp
  qed
  moreover from Cons.prems(1)
  have "\<forall>i\<in>set rest. i < length nbrs \<and> (\<forall>j\<in>set (nbrs ! i). 1 \<le> j \<and> j \<le> int n)" by auto
  ultimately obtain g' where "graph_loop n nbrs rest ?g = Inr g'"
    using Cons.IH by blast
  with il ik e show ?case by (simp add: Let_def)
qed

lemma complete_neighbours_range:
  "i < n \<Longrightarrow> \<forall>j\<in>set (complete_neighbours n ! i). 1 \<le> j \<and> j \<le> int n"
  by (auto simp: complete_neighbours_def)

lemma length_complete_neighbours: "length (complete_neighbours n) = n"
  by (simp add: complete_neighbours_def)

lemma replicate_21:
  "replicate 21 x = [x, x, x, x, x, x, x, x, x, x, x, x, x, x, x, x, x, x, x, x, x]"
  by (simp add: eval_nat_numeral)

lemma default_first_rows:
  "case graph_loop 21 (complete_neighbours 21) [0, 1]
          \<lparr> number_neighbours = [], edges = [], L_G = zeros 21 21 \<rparr> of
     Inl e \<Rightarrow> False
   | Inr g \<Rightarrow> length (number_neighbours g) = 2 \<and>
       L_G g ! 0 = [20, - 1, - 1, - 1, - 1, - 1, - 1, - 1, - 1, - 1, - 1, - 1, - 1, - 1, - 1,
                    - 1, - 1, - 1, - 1, - 1, - 1] \<and>
       L_G g ! 1 = [0, 20, - 1, - 1, - 1, - 1, - 1, - 1, - 1, - 1, - 1, - 1, - 1, - 1, - 1,
                    - 1, - 1, - 1, - 1, - 1, - 1]"
  by (simp add: complete_neighbours_def zeros_def set_entry_def np_index_def upt_conv_Cons
      replicate_21)

lemma edge_loop_length:
  "edge_loop n i js (es, L) = Inr (es', L') \<Longrightarrow> length L' = length L"
proof (induction js arbitrary: es L)
  case Nil
  then show ?case by simp
next
  case (Cons j js)
  show ?case
  proof (cases "(int i + 1, j) \<notin> set es \<and> (j, int i + 1) \<notin> set es")
    case True
    with Cons.prems(1) obtain c
      where r: "edge_loop n i js (es @ [(int i + 1, j)], set_entry L i c (- 1)) = Inr (es', L')"
      by (auto split: option.splits)
    from Cons.IH [OF r] show ?thesis by (simp add: set_entry_def)
  next
    case False
    with Cons.prems(1) have "edge_loop n i js (es, L) = Inr (es', L')" by auto
    from Cons.IH [OF this] show ?thesis .
  qed
qed

lemma graph_loop_length:
  "graph_loop n nbrs idx g = Inr g' \<Longrightarrow> length (L_G g') = length (L_G g)"
proof (induction idx arbitrary: g)
  case Nil
  then show ?case by simp
next
  case (Cons i rest)
  from Cons.prems(1) obtain es L
    where e: "edge_loop n i (nbrs ! i)
                (edges g, set_entry (L_G g) i i
                   (real ((number_neighbours g @ [length (nbrs ! i)]) ! i))) = Inr (es, L)"
      and l: "graph_loop n nbrs rest
                \<lparr> number_neighbours = number_neighbours g @ [length (nbrs ! i)],
                  edges = es, L_G = L \<rparr> = Inr g'"
    by (auto simp: Let_def split: if_splits sum.splits)
  from Cons.IH [OF l] edge_loop_length [OF e] show ?case by (simp add: set_entry_def)
qed

lemma build_graph_default:
  "\<exists>g. build_graph default_config = Inr g \<and> length (L_G g) = 21 \<and>
       L_G g ! 0 = [20, - 1, - 1, - 1, - 1, - 1, - 1, - 1, - 1, - 1, - 1, - 1, - 1, - 1, - 1,
                    - 1, - 1, - 1, - 1, - 1, - 1] \<and>
       L_G g ! 1 = [0, 20, - 1, - 1, - 1, - 1, - 1, - 1, - 1, - 1, - 1, - 1, - 1, - 1, - 1,
                    - 1, - 1, - 1, - 1, - 1, - 1]"
proof -
  let ?g0 = "\<lparr> number_neighbours = [], edges = [], L_G = zeros 21 21 \<rparr>"
  let ?nb = "complete_neighbours 21"
  have nb: "neighbours default_config = ?nb"
    by (simp add: default_config_def length_default_formation)
  have idx: "[0..<21] = [0, 1] @ [2..<21]" by (simp add: upt_conv_Cons)
  have b: "build_graph default_config = graph_loop 21 ?nb ([0, 1] @ [2..<21]) ?g0"
    by (simp only: build_graph_def number_robots_default nb idx)
  from default_first_rows obtain g2
    where s: "graph_loop 21 ?nb [0, 1] ?g0 = Inr g2"
      and n2: "length (number_neighbours g2) = 2"
      and r0: "L_G g2 ! 0 = [20, - 1, - 1, - 1, - 1, - 1, - 1, - 1, - 1, - 1, - 1, - 1, - 1,
                    - 1, - 1, - 1, - 1, - 1, - 1, - 1, - 1]"
      and r1: "L_G g2 ! 1 = [0, 20, - 1, - 1, - 1, - 1, - 1, - 1, - 1, - 1, - 1, - 1, - 1,
                    - 1, - 1, - 1, - 1, - 1, - 1, - 1, - 1]"
    by (auto split: sum.splits)
  have "\<forall>i\<in>set [2..<21]. i < length ?nb \<and> (\<forall>j\<in>set (?nb ! i). 1 \<le> j \<and> j \<le> int 21)"
  proof
    fix i :: nat assume "i \<in> set [2..<21]"
    then have "i < 21" by (simp only: set_upt atLeastLessThan_iff)
    then have a: "i < length ?nb" by (simp only: length_complete_neighbours)
    have b: "\<forall>j\<in>set (?nb ! i). 1 \<le> j \<and> j \<le> int 21"
      by (rule complete_neighbours_range) fact
    from a b show "i < length ?nb \<and> (\<forall>j\<in>set (?nb ! i). 1 \<le> j \<and> j \<le> int 21)" ..
  qed
  moreover have "\<forall>t<length [2..<21]. [2..<21] ! t \<le> length (number_neighbours g2) + t"
  proof (intro allI impI)
    fix t :: nat assume "t < length [2..<21]"
    then have "2 + t < 21" by (simp only: length_upt)
    then have "[2..<21] ! t = 2 + t" by (rule nth_upt)
    then show "[2..<21] ! t \<le> length (number_neighbours g2) + t" by (simp only: n2)
  qed
  ultimately obtain g where g: "graph_loop 21 ?nb [2..<21] g2 = Inr g"
    using graph_loop_succeeds [of "[2..<21]" ?nb 21 g2] by blast
  have bg: "build_graph default_config = Inr g"
    unfolding b graph_loop_append s by (simp only: sum.case g)
  have "length (L_G g) = 21"
    using graph_loop_length [OF g] graph_loop_length [OF s] by (simp add: zeros_def)
  moreover have "L_G g ! 0 = L_G g2 ! 0"
    by (rule graph_loop_other_rows [OF g]) (simp only: set_upt atLeastLessThan_iff, arith)
  moreover have "L_G g ! 1 = L_G g2 ! 1"
    by (rule graph_loop_other_rows [OF g]) (simp only: set_upt atLeastLessThan_iff, arith)
  ultimately show ?thesis using bg r0 r1 by auto
qed

text \<open>
  Claim C8, evaluated on the default configuration (21 robots, each the neighbour of all
  others): the matrix the loop builds has \<open>L_G[0][1] = -1\<close> and \<open>L_G[1][0] = 0\<close>, and its
  second row sums to 1. It is not symmetric and its rows do not all sum to zero.
\<close>

theorem laplacian_of_default_graph:
  "\<exists>g. build_graph default_config = Inr g \<and>
       L_G g ! 0 ! 1 = - 1 \<and> L_G g ! 1 ! 0 = 0 \<and> sum_list (L_G g ! 1) = 1"
proof -
  from build_graph_default obtain g where "build_graph default_config = Inr g"
    and "L_G g ! 0 = [20, - 1, - 1, - 1, - 1, - 1, - 1, - 1, - 1, - 1, - 1, - 1, - 1, - 1, - 1,
                    - 1, - 1, - 1, - 1, - 1, - 1]"
    and "L_G g ! 1 = [0, 20, - 1, - 1, - 1, - 1, - 1, - 1, - 1, - 1, - 1, - 1, - 1, - 1, - 1,
                    - 1, - 1, - 1, - 1, - 1, - 1]"
    by blast
  then show ?thesis by simp
qed

lemma nth_concat_uniform:
  "\<forall>xs\<in>set xss. length xs = m \<Longrightarrow> i < length xss \<Longrightarrow> k < m \<Longrightarrow>
   concat xss ! (i * m + k) = xss ! i ! k"
proof (induction xss arbitrary: i)
  case Nil
  then show ?case by simp
next
  case (Cons x xss)
  show ?case
  proof (cases i)
    case 0
    with Cons.prems show ?thesis by (simp add: nth_append)
  next
    case (Suc i')
    with Cons.prems have "concat xss ! (i' * m + k) = xss ! i' ! k"
      by (intro Cons.IH) auto
    moreover from Cons.prems have "length x = m" by simp
    ultimately show ?thesis using Suc by (simp add: nth_append)
  qed
qed

lemma kron_I2_row:
  assumes "i < length L"
  shows "kron L I2 ! (2 * i) = concat (map (\<lambda>a. [a, 0]) (L ! i))"
proof -
  let ?f = "\<lambda>arow. map (\<lambda>brow. concat (map (\<lambda>a. map (\<lambda>b. a * b) brow) arow)) I2"
  have "concat (map ?f L) ! (i * 2 + 0) = map ?f L ! i ! 0"
    by (rule nth_concat_uniform) (use assms in \<open>auto simp: I2_def\<close>)
  then show ?thesis using assms by (simp add: kron_def I2_def mult.commute)
qed

text \<open>
  Claim C6, evaluated on the default configuration with the first robot one unit off its
  place along \<open>x\<close>: the \<open>x\<close> command of the second robot is 0 by \<open>-(L \<otimes> I\<^sub>2)(p - p_d)\<close> on
  the matrix the script builds, and 1 by the sum over the neighbours.
\<close>

theorem formation_command_on_default_graph:
  "\<exists>g. build_graph default_config = Inr g \<and>
       formationController (L_G g) displaced_p default_p_d ! 2 = 0 \<and>
       consensus_law (neighbours default_config) displaced_p default_p_d ! 2 = 1"
proof -
  from build_graph_default obtain g where bg: "build_graph default_config = Inr g"
    and len: "length (L_G g) = 21"
    and r1: "L_G g ! 1 = [0, 20, - 1, - 1, - 1, - 1, - 1, - 1, - 1, - 1, - 1, - 1, - 1, - 1, - 1,
                    - 1, - 1, - 1, - 1, - 1, - 1]"
    by blast
  have row: "kron (L_G g) I2 ! 2 = concat (map (\<lambda>a. [a, 0]) (L_G g ! 1))"
    using kron_I2_row [of 1 "L_G g"] len by simp
  have lk: "length (kron (L_G g) I2) = 42"
    by (simp add: kron_def I2_def len length_concat comp_def sum_list_triv)
  have "formationController (L_G g) displaced_p default_p_d ! 2 =
          - dot (kron (L_G g) I2 ! 2) (map2 (-) displaced_p default_p_d)"
    using lk by (simp add: formationController_def mat_vec_def)
  also have "\<dots> = 0"
    unfolding row r1
    by (simp add: dot_def displaced_p_def default_p_d_def default_formation_def)
  finally have f: "formationController (L_G g) displaced_p default_p_d ! 2 = 0" .
  have nb: "neighbours default_config = complete_neighbours 21"
    by (simp add: default_config_def length_default_formation)
  let ?rows = "map (\<lambda>i. [consensus_coord (complete_neighbours 21 ! i) displaced_p default_p_d i 0,
                          consensus_coord (complete_neighbours 21 ! i) displaced_p default_p_d i 1])
                 [0..<21]"
  have "concat ?rows ! (1 * 2 + 0) = ?rows ! 1 ! 0"
    by (rule nth_concat_uniform) auto
  then have "consensus_law (complete_neighbours 21) displaced_p default_p_d ! 2 =
          consensus_coord (complete_neighbours 21 ! 1) displaced_p default_p_d 1 0"
    by (simp add: consensus_law_def length_complete_neighbours del: upt.simps)
  also have "complete_neighbours 21 ! 1 =
     [1, 3, 4, 5, 6, 7, 8, 9, 10, 11, 12, 13, 14, 15, 16, 17, 18, 19, 20, 21]"
    by (simp add: complete_neighbours_def upt_conv_Cons)
  also have "consensus_coord [1, 3, 4, 5, 6, 7, 8, 9, 10, 11, 12, 13, 14, 15, 16, 17, 18, 19, 20, 21]
       displaced_p default_p_d 1 0 = 1"
    by (simp add: consensus_coord_def displaced_p_def default_p_d_def default_formation_def)
  finally have c: "consensus_law (complete_neighbours 21) displaced_p default_p_d ! 2 = 1" .
  from bg f c nb show ?thesis by auto
qed

subsection \<open>The arena is invariant\<close>

lemma length_set_block: "length (set_block M r c B) = length M"
  by (simp add: set_block_def)

lemma length_set_block_row:
  "k < length M \<Longrightarrow> length (set_block M r c B ! k) = length (M ! k)"
  by (simp add: set_block_def)

lemma set_block_nth:
  "k < length M \<Longrightarrow> l < length (M ! k) \<Longrightarrow>
   set_block M r c B ! k ! l =
     (if r \<le> k \<and> k < r + length B \<and> c \<le> l \<and> l < c + length (B ! (k - r))
      then B ! (k - r) ! (l - c) else M ! k ! l)"
  by (simp add: set_block_def)

lemma arena_loop_Suc:
  "arena_loop [0..<Suc m] M = set_block (arena_loop [0..<m] M) (4 * m) (2 * m) As"
  by (simp add: arena_loop_def)

lemma As_row_length: "k < 4 \<Longrightarrow> length (As ! k) = 2"
proof -
  assume "k < 4"
  then consider "k = 0" | "k = 1" | "k = 2" | "k = 3" by linarith
  then show ?thesis by cases (simp_all add: As_def)
qed

lemma arena_loop_shape:
  "length (arena_loop [0..<m] (zeros (n * 4) (n * 2))) = n * 4 \<and>
   (\<forall>k<n * 4. length (arena_loop [0..<m] (zeros (n * 4) (n * 2)) ! k) = n * 2 \<and>
      (\<forall>l<n * 2. arena_loop [0..<m] (zeros (n * 4) (n * 2)) ! k ! l =
         (if k div 4 < m \<and> l div 2 = k div 4 then As ! (k mod 4) ! (l mod 2) else 0)))"
proof (induction m)
  case 0
  show ?case by (simp add: arena_loop_def zeros_def)
next
  case (Suc m)
  let ?A = "arena_loop [0..<m] (zeros (n * 4) (n * 2))"
  from Suc have len: "length ?A = n * 4"
    and rows: "\<And>k. k < n * 4 \<Longrightarrow> length (?A ! k) = n * 2"
    and ent: "\<And>k l. k < n * 4 \<Longrightarrow> l < n * 2 \<Longrightarrow>
        ?A ! k ! l = (if k div 4 < m \<and> l div 2 = k div 4 then As ! (k mod 4) ! (l mod 2) else 0)"
    by auto
  have lenAs: "length As = 4" by (simp add: As_def)
  have eq: "arena_loop [0..<Suc m] (zeros (n * 4) (n * 2)) = set_block ?A (4 * m) (2 * m) As"
    by (rule arena_loop_Suc)
  show ?case
    unfolding eq
  proof (intro conjI allI impI)
    show "length (set_block ?A (4 * m) (2 * m) As) = n * 4"
      by (simp only: length_set_block len)
  next
    fix k assume k: "k < n * 4"
    show "length (set_block ?A (4 * m) (2 * m) As ! k) = n * 2"
      using k len rows by (simp only: length_set_block_row)
  next
    fix k l assume k: "k < n * 4" and l: "l < n * 2"
    have kl: "k < length ?A" "l < length (?A ! k)" using k l len rows by simp_all
    note nth = set_block_nth [OF kl, of "4 * m" "2 * m" As]
    show "set_block ?A (4 * m) (2 * m) As ! k ! l =
         (if k div 4 < Suc m \<and> l div 2 = k div 4 then As ! (k mod 4) ! (l mod 2) else 0)"
    proof (cases "k div 4 = m")
      case True
      then have kr: "4 * m \<le> k" "k < 4 * m + 4" "k - 4 * m = k mod 4" by presburger+
      then have rl: "length (As ! (k - 4 * m)) = 2" by (simp add: As_row_length)
      show ?thesis
      proof (cases "l div 2 = m")
        case lm: True
        then have "2 * m \<le> l" "l < 2 * m + 2" "l - 2 * m = l mod 2" by presburger+
        with kr rl True lm show ?thesis
          by (simp add: nth lenAs)
      next
        case lm: False
        then have "\<not> (2 * m \<le> l \<and> l < 2 * m + 2)" by presburger
        with kr rl True lm show ?thesis
          using ent [OF k l] by (auto simp add: nth lenAs)
      qed
    next
      case False
      then have "\<not> (4 * m \<le> k \<and> k < 4 * m + 4)" by presburger
      with False show ?thesis
        using ent [OF k l] by (auto simp add: nth lenAs)
    qed
  qed
qed

lemma dot_sum:
  "length x = length y \<Longrightarrow> dot x y = (\<Sum>l<length x. x ! l * y ! l)"
  by (simp add: dot_def sum_list_sum_nth atLeast0LessThan)

lemma dot_two_entries:
  assumes "length x = 2 * n" and "length u = 2 * n" and "i < n"
    and "\<And>l. l < 2 * n \<Longrightarrow> x ! l = (if l div 2 = i then a (l mod 2) else 0)"
  shows "dot x u = a 0 * u ! (2 * i) + a 1 * u ! (2 * i + 1)"
proof -
  have "dot x u = (\<Sum>l<2 * n. x ! l * u ! l)"
    using assms(1,2) by (simp add: dot_sum)
  also have "\<dots> = (\<Sum>l\<in>{2 * i, 2 * i + 1}. x ! l * u ! l)"
  proof (rule sum.mono_neutral_right)
    show "finite {..<2 * n}" by simp
    show "{2 * i, 2 * i + 1} \<subseteq> {..<2 * n}" using assms(3) by auto
    show "\<forall>l\<in>{..<2 * n} - {2 * i, 2 * i + 1}. x ! l * u ! l = 0"
    proof
      fix l assume l: "l \<in> {..<2 * n} - {2 * i, 2 * i + 1}"
      then have "l div 2 \<noteq> i" by auto
      with l assms(4) [of l] show "x ! l * u ! l = 0" by simp
    qed
  qed
  also have "\<dots> = x ! (2 * i) * u ! (2 * i) + x ! (2 * i + 1) * u ! (2 * i + 1)"
    by simp
  also have "x ! (2 * i) = a 0" using assms(4) [of "2 * i"] assms(3) by simp
  also have "x ! (2 * i + 1) = a 1" using assms(4) [of "2 * i + 1"] assms(3) by simp
  finally show ?thesis .
qed

lemma precalculate_A_arena:
  "precalculate cfg = Inr pc \<Longrightarrow>
   A_arena pc = arena_loop [0..<number_robots cfg]
                  (zeros (number_robots cfg * 4) (number_robots cfg * 2))"
  by (auto simp: precalculate_def Let_def split: sum.splits if_splits)

lemma arena_row_dot:
  assumes "i < n" and "j < 4" and "length u = 2 * n"
  shows "dot (arena_loop [0..<n] (zeros (n * 4) (n * 2)) ! (4 * i + j)) u =
           As ! j ! 0 * u ! (2 * i) + As ! j ! 1 * u ! (2 * i + 1)"
proof -
  let ?A = "arena_loop [0..<n] (zeros (n * 4) (n * 2))"
  define k where "k = 4 * i + j"
  have k: "k < n * 4" using assms(1,2) by (simp add: k_def)
  have d: "k div 4 = i" "k mod 4 = j" using assms(2) by (simp_all add: k_def)
  from arena_loop_shape [of n n] k
  have len': "length (?A ! k) = n * 2"
    and ent': "\<forall>l<n * 2. ?A ! k ! l =
         (if k div 4 < n \<and> l div 2 = k div 4 then As ! (k mod 4) ! (l mod 2) else 0)"
    by blast+
  have len: "length (?A ! k) = 2 * n" using len' by (simp only: mult.commute)
  have ent: "?A ! k ! l = (if l div 2 = i then As ! j ! (l mod 2) else 0)" if "l < 2 * n" for l
  proof -
    from that have "l < n * 2" by simp
    with ent' have "?A ! k ! l =
         (if k div 4 < n \<and> l div 2 = k div 4 then As ! (k mod 4) ! (l mod 2) else 0)"
      by blast
    then show ?thesis using assms(1) by (simp only: d) simp
  qed
  from dot_two_entries [OF len assms(3) assms(1), of "\<lambda>c. As ! j ! c"] ent
  have "dot (?A ! k) u = As ! j ! 0 * u ! (2 * i) + As ! j ! 1 * u ! (2 * i + 1)"
    by simp
  then show ?thesis by (simp only: k_def)
qed

lemma arena_rows_bound:
  assumes pc: "precalculate cfg = Inr pc"
    and f: "feasible (A_arena pc) (arena_rhs a xmax xmin ymax ymin (number_robots cfg) pv) u"
    and lu: "length u = 2 * number_robots cfg" and i: "i < number_robots cfg"
  shows "- u ! (2 * i) \<le> a * (pv ! (2 * i) - xmin)"
    and "u ! (2 * i) \<le> a * (xmax - pv ! (2 * i))"
    and "- u ! (2 * i + 1) \<le> a * (pv ! (2 * i + 1) - ymin)"
    and "u ! (2 * i + 1) \<le> a * (ymax - pv ! (2 * i + 1))"
proof -
  let ?n = "number_robots cfg"
  let ?A = "arena_loop [0..<?n] (zeros (?n * 4) (?n * 2))"
  let ?b = "arena_rhs a xmax xmin ymax ymin ?n pv"
  have A: "A_arena pc = ?A" using pc by (rule precalculate_A_arena)
  have lenA: "length ?A = ?n * 4" using arena_loop_shape [of ?n ?n] by simp
  have row: "dot (?A ! (4 * i + j)) u \<le> ?b ! (4 * i + j)" if "j < 4" for j
  proof -
    from that i have k: "4 * i + j < length ?A" by (simp add: lenA)
    from f have "list_all2 (\<le>) (map (\<lambda>row. dot row u) ?A) ?b"
      by (simp add: feasible_def mat_vec_def A)
    from list_all2_nthD [OF this, of "4 * i + j"] k show ?thesis by simp
  qed
  have b: "?b ! (4 * i + j) =
      (if j = 0 then a * (pv ! (2 * i) - xmin)
       else if j = 1 then a * (xmax - pv ! (2 * i))
       else if j = 2 then a * (pv ! (2 * i + 1) - ymin)
       else a * (ymax - pv ! (2 * i + 1)))" if "j < 4" for j
  proof -
    define k where "k = 4 * i + j"
    from that i have k: "k < 4 * ?n" by (simp add: k_def)
    have d: "k div 4 = i" "k mod 4 = j" using that by (simp_all add: k_def)
    have "[0..<4 * ?n] ! k = k" using k by simp
    then have "?b ! k =
      (if k mod 4 = 0 then a * (pv ! (2 * (k div 4)) - xmin)
       else if k mod 4 = 1 then a * (xmax - pv ! (2 * (k div 4)))
       else if k mod 4 = 2 then a * (pv ! (2 * (k div 4) + 1) - ymin)
       else a * (ymax - pv ! (2 * (k div 4) + 1)))"
      unfolding arena_rhs_def using k by (simp only: nth_map length_upt minus_nat.diff_0)
    then show ?thesis by (simp only: d) (simp only: k_def)
  qed
  from row [of 0] b [of 0] arena_row_dot [OF i, of 0 u] lu
  show "- u ! (2 * i) \<le> a * (pv ! (2 * i) - xmin)" by (simp add: As_def)
  from row [of 1] b [of 1] arena_row_dot [OF i, of 1 u] lu
  show "u ! (2 * i) \<le> a * (xmax - pv ! (2 * i))" by (simp add: As_def)
  from row [of 2] b [of 2] arena_row_dot [OF i, of 2 u] lu
  show "- u ! (2 * i + 1) \<le> a * (pv ! (2 * i + 1) - ymin)" by (simp add: As_def)
  from row [of 3] b [of 3] arena_row_dot [OF i, of 3 u] lu
  show "u ! (2 * i + 1) \<le> a * (ymax - pv ! (2 * i + 1))" by (simp add: As_def)
qed

lemma euler_bound:
  fixes f a lo hi x v :: real
  assumes "0 < f" and "0 \<le> a" and "a \<le> f" and "lo \<le> x" and "x \<le> hi"
    and "- v \<le> a * (x - lo)" and "v \<le> a * (hi - x)"
  shows "lo \<le> x + v / f" and "x + v / f \<le> hi"
proof -
  have "a * (hi - x) \<le> f * (hi - x)" using assms(3,5) by (intro mult_right_mono) simp_all
  with assms(7) have "v \<le> f * (hi - x)" by linarith
  then have "v / f \<le> hi - x" using assms(1) by (simp add: pos_divide_le_eq mult.commute)
  then show "x + v / f \<le> hi" by linarith
  have "a * (x - lo) \<le> f * (x - lo)" using assms(3,4) by (intro mult_right_mono) simp_all
  with assms(6) have "- v \<le> f * (x - lo)" by linarith
  then have "(- v) / f \<le> x - lo"
    using assms(1) by (simp only: pos_divide_le_eq mult.commute)
  then show "lo \<le> x + v / f" by simp
qed

lemma in_arena_iff:
  "in_arena cfg pv \<longleftrightarrow>
     length pv = 2 * number_robots cfg \<and>
     (\<forall>i<number_robots cfg.
        - real_of_int (x_max cfg) \<le> pv ! (2 * i) \<and> pv ! (2 * i) \<le> real_of_int (x_max cfg) \<and>
        - real_of_int (y_max cfg) \<le> pv ! (2 * i + 1) \<and>
        pv ! (2 * i + 1) \<le> real_of_int (y_max cfg))"
  by (auto simp: in_arena_def list_all_iff)

lemma core_step_arena:
  assumes pc: "precalculate cfg = Inr pc" and ra: "respects_arena cfg pc aux"
    and num: "0 < freq cfg" "0 \<le> alpha cfg" "alpha cfg \<le> real_of_int (freq cfg)"
    and inv: "\<forall>t\<le>k. in_arena cfg (p st ! t)"
    and core: "loop_core cfg aux pc k st = Inr st'"
  shows "\<forall>t\<le>Suc k. in_arena cfg (p st' ! t)"
proof -
  let ?n = "number_robots cfg" and ?f = "real_of_int (freq cfg)"
  let ?pv = "p st ! k"
  from loop_core_Inr [OF core] obtain u
    where u: "cbfController aux (step_call cfg aux pc k st) = Inr u"
      and lu: "length u = length ?pv"
      and p': "p st' = (p st)[Suc k := map2 (\<lambda>x v. x + v / ?f) ?pv u]"
    by blast
  have k: "Suc k < length (p st)" using loop_core_frame(9) [OF core] .
  from inv have ia: "in_arena cfg ?pv" by simp
  then have lp: "length ?pv = 2 * ?n" by (simp add: in_arena_iff)
  have feas: "feasible (A_arena pc)
          (arena_rhs (alpha cfg) (real_of_int (x_max cfg)) (- real_of_int (x_max cfg))
             (real_of_int (y_max cfg)) (- real_of_int (y_max cfg)) ?n ?pv) u"
    using ra u unfolding respects_arena_def step_call_def by blast
  let ?q = "map2 (\<lambda>x v. x + v / ?f) ?pv u"
  have q: "p st' ! Suc k = ?q" using p' k by simp
  have old: "p st' ! t = p st ! t" if "t \<le> k" for t using p' that by simp
  have fpos: "0 < ?f" using num(1) by simp
  have "in_arena cfg ?q"
    unfolding in_arena_iff
  proof (intro conjI allI impI)
    show "length ?q = 2 * ?n" using lu lp by simp
  next
    fix i assume i: "i < ?n"
    from ia i have bx: "- real_of_int (x_max cfg) \<le> ?pv ! (2 * i)"
        "?pv ! (2 * i) \<le> real_of_int (x_max cfg)"
      and by': "- real_of_int (y_max cfg) \<le> ?pv ! (2 * i + 1)"
        "?pv ! (2 * i + 1) \<le> real_of_int (y_max cfg)"
      by (simp_all add: in_arena_iff)
    have lu': "length u = 2 * ?n" using lu lp by simp
    note rows = arena_rows_bound [OF pc feas lu' i]
    have qx: "?q ! (2 * i) = ?pv ! (2 * i) + u ! (2 * i) / ?f"
      and qy: "?q ! (2 * i + 1) = ?pv ! (2 * i + 1) + u ! (2 * i + 1) / ?f"
      using i lu' lp by simp_all
    from euler_bound [OF fpos num(2,3) bx, of "u ! (2 * i)"] rows(1,2)
    show "- real_of_int (x_max cfg) \<le> ?q ! (2 * i)"
      and "?q ! (2 * i) \<le> real_of_int (x_max cfg)"
      unfolding qx by simp_all
    from euler_bound [OF fpos num(2,3) by', of "u ! (2 * i + 1)"] rows(3,4)
    show "- real_of_int (y_max cfg) \<le> ?q ! (2 * i + 1)"
      and "?q ! (2 * i + 1) \<le> real_of_int (y_max cfg)"
      unfolding qy by simp_all
  qed
  with q inv old show ?thesis by (auto simp: le_Suc_eq)
qed

lemma sim_loop_append:
  "sim_loop cfg aux pc (xs @ ys) st =
     (case sim_loop cfg aux pc xs st of
        Inl e \<Rightarrow> Inl e
      | Inr s \<Rightarrow> sim_loop cfg aux pc ys s)"
  by (induction xs arbitrary: st) (auto split: sum.splits)

lemma initial_in_arena:
  assumes init: "initial_state cfg amb r = Inr st0"
    and draw: "\<forall>x\<in>set r. 0 \<le> x \<and> x < 1"
    and xm: "0 < x_max cfg" "x_max cfg \<le> 2 * y_max cfg"
  shows "in_arena cfg (p st0 ! 0)"
proof -
  let ?n = "number_robots cfg"
  have p0: "p st0 ! 0 = initial_p cfg r" and lr: "length r = ?n * dim"
    using initial_state_columns(1,6) [OF init] by simp_all
  have len: "length (initial_p cfg r) = 2 * ?n" using lr by (simp add: initial_p_def dim_def)
  have b: "- real_of_int (x_max cfg) / 2 \<le> initial_p cfg r ! l \<and>
           initial_p cfg r ! l < real_of_int (x_max cfg) / 2" if "l < 2 * ?n" for l
  proof -
    from that len have "initial_p cfg r ! l \<in> set (initial_p cfg r)" by simp
    with initial_p_bounds [OF draw xm(1)] show ?thesis by blast
  qed
  have xr: "0 < real_of_int (x_max cfg)" using xm(1) by simp
  have yr: "real_of_int (x_max cfg) / 2 \<le> real_of_int (y_max cfg)"
  proof -
    from xm(2) have "real_of_int (x_max cfg) \<le> real_of_int (2 * y_max cfg)"
      by (simp only: of_int_le_iff)
    then show ?thesis by simp
  qed
  show ?thesis
    unfolding p0 in_arena_iff
  proof (intro conjI allI impI)
    show "length (initial_p cfg r) = 2 * ?n" by (rule len)
  next
    fix i assume i: "i < ?n"
    from b [of "2 * i"] b [of "2 * i + 1"] i xr yr
    show "- real_of_int (x_max cfg) \<le> initial_p cfg r ! (2 * i)"
      and "initial_p cfg r ! (2 * i) \<le> real_of_int (x_max cfg)"
      and "- real_of_int (y_max cfg) \<le> initial_p cfg r ! (2 * i + 1)"
      and "initial_p cfg r ! (2 * i + 1) \<le> real_of_int (y_max cfg)"
      by simp_all
  qed
qed

lemma sim_loop_arena:
  assumes pc: "precalculate cfg = Inr pc" and ra: "respects_arena cfg pc aux"
    and num: "0 < freq cfg" "0 \<le> alpha cfg" "alpha cfg \<le> real_of_int (freq cfg)"
    and start: "in_arena cfg (p st0 ! 0)"
  shows "sim_loop cfg aux pc [0..<k] st0 = Inr st \<Longrightarrow> \<forall>t\<le>k. in_arena cfg (p st ! t)"
proof (induction k arbitrary: st)
  case 0
  with start show ?case by simp
next
  case (Suc k)
  from Suc.prems obtain s
    where s: "sim_loop cfg aux pc [0..<k] st0 = Inr s"
      and b: "loop_body cfg aux pc k s = Inr st"
    by (auto simp: sim_loop_append split: sum.splits)
  from b obtain s1
    where c: "loop_core cfg aux pc k s = Inr s1" and l: "log_block cfg pc s1 = Inr st"
    by (auto simp: loop_body_def split: sum.splits)
  from core_step_arena [OF pc ra num Suc.IH [OF s] c] log_block_Inr(1) [OF l]
  show ?case by simp
qed

text \<open>
  Claim C3. In a run whose draw is in \<open>[0, 1)\<close> and whose filter, whenever it returns,
  returns a command that satisfies the arena rows, every column of \<open>p\<close> written so far has
  every robot inside \<open>[-x_max, x_max] \<times> [-y_max, y_max]\<close>, after every pass of the loop and
  whatever the command handed to the filter was. The gain and the frequency are such that
  \<open>0 \<le> \<alpha> \<le> freq\<close> (1 and 50 in \<^verbatim>\<open>main.py\<close>), and \<open>0 < x_max \<le> 2 y_max\<close> (25 and 25).
\<close>

theorem arena_invariant:
  assumes "precalculate cfg = Inr pc"
    and "initial_state cfg amb r = Inr st0"
    and "\<forall>x\<in>set r. 0 \<le> x \<and> x < 1"
    and "sim_loop cfg aux pc [0..<k] st0 = Inr st"
    and "loop_core cfg aux pc k st = Inr st'"
    and "respects_arena cfg pc aux"
    and "0 < freq cfg" and "0 \<le> alpha cfg" and "alpha cfg \<le> real_of_int (freq cfg)"
    and "0 < x_max cfg" and "x_max cfg \<le> 2 * y_max cfg"
  shows "\<forall>t\<le>Suc k. in_arena cfg (p st' ! t)"
proof -
  have start: "in_arena cfg (p st0 ! 0)"
    using assms(2,3,10,11) by (rule initial_in_arena)
  have "\<forall>t\<le>k. in_arena cfg (p st ! t)"
    using assms(1,6,7,8,9) start assms(4) by (rule sim_loop_arena)
  with assms(1,6,7,8,9) show ?thesis using assms(5) by (rule core_step_arena)
qed

lemma respects_arena_sample: "respects_arena pair_config pair_precalc sample_auxiliary"
  by (auto simp: respects_arena_def sample_auxiliary_def checking_filter_def filter_call_def
      base_of_def Let_def split: if_splits)

lemma sim_loop_pair_first:
  "sim_loop pair_config sample_auxiliary pair_precalc [0..<1] pair_state = Inr pair_logged_1"
  by (simp add: loop_body_def loop_core_pair)
     (simp add: log_block_def log_row_def pair_state_1_def pair_state_def bound_ambient_def
        pair_logged_1_def pair_precalc_def pair_config_def default_config_def number_robots_def)

lemma loop_core_pair_second:
  "loop_core pair_config sample_auxiliary pair_precalc 1 pair_logged_1 = Inr pair_core_2"
  by (simp add: loop_core_def step_call_def filter_call_def huil_override_def base_of_def
      nominal_def formationController_def kron_def I2_def
      pair_config_def default_config_def sample_auxiliary_def
      checking_filter_def pair_precalc_def pair_state_def pair_state_1_def pair_logged_1_def
      pair_core_2_def feasible_def arena_rhs_def mat_vec_def dot_def number_robots_def
      x_max_def y_max_def upt_conv_Cons euler_def systemDynamics_def update_extra_def
      agent_velocity_def)

theorem arena_invariant_witness:
  "in_arena pair_config (p pair_core_2 ! 0) \<and> in_arena pair_config (p pair_core_2 ! 1) \<and>
   in_arena pair_config (p pair_core_2 ! 2) \<and>
   p pair_core_2 ! 2 = [0, 2, 0, - (20 / 9)]"
proof -
  have d: "\<forall>x\<in>set sample_draw. 0 \<le> x \<and> x < 1" by (simp add: sample_draw_def)
  have n: "0 < freq pair_config" "0 \<le> alpha pair_config"
    "alpha pair_config \<le> real_of_int (freq pair_config)"
    "0 < x_max pair_config" "x_max pair_config \<le> 2 * y_max pair_config"
    by (simp_all add: pair_config_def default_config_def x_max_def y_max_def)
  have a: "\<forall>t\<le>Suc 1. in_arena pair_config (p pair_core_2 ! t)"
    using arena_invariant [OF precalculate_pair initial_state_pair d sim_loop_pair_first
        loop_core_pair_second respects_arena_sample n] .
  from a have "in_arena pair_config (p pair_core_2 ! 0)"
    and "in_arena pair_config (p pair_core_2 ! 1)"
    and "in_arena pair_config (p pair_core_2 ! 2)" by simp_all
  then show ?thesis by (simp add: pair_core_2_def)
qed

subsection \<open>The run of the default configuration\<close>

lemma arg_p_filter_call: "arg_p (base_args (filter_call cfg pc pv u_n hp)) = pv"
  by (simp add: filter_call_def base_of_def)

lemma first_pass_NameError:
  assumes pc: "precalculate cfg = Inr pc"
    and init: "initial_state cfg unbound_ambient r = Inr st0"
    and T: "1 < max_time_size cfg"
    and filt: "\<forall>c. \<exists>u. cbfController aux c = Inr u \<and> length u = length (arg_p (base_args c))"
    and ag: "\<forall>i T v d. length (extraRobotDynamics aux i T v d) = 2"
  shows "simulate cfg aux unbound_ambient r = Inl NameError"
proof -
  note cols = initial_state_columns [OF init]
  have lp: "Suc 0 < length (p st0)" and lh: "Suc 0 < length (huil_p st0)"
    using cols(3,4) T by simp_all
  have env0: "env st0 = unbound_ambient"
    using init by (auto simp: initial_state_def Let_def split: if_splits)
  from filt obtain u
    where u: "cbfController aux (step_call cfg aux pc 0 st0) = Inr u"
      and lu: "length u = length (arg_p (base_args (step_call cfg aux pc 0 st0)))"
    by blast
  from lu have lu': "length u = length (p st0 ! 0)"
    by (simp only: step_call_def arg_p_filter_call)
  obtain q where q: "euler cfg (systemDynamics (p st0 ! 0) u) (p st0 ! 0) = Inr q"
    using lu' by (simp add: euler_def systemDynamics_def)
  let ?s = "st0\<lparr>p := (p st0)[Suc 0 := q]\<rparr>"
  have "\<exists>s1. update_extra cfg aux 0 ?s = Inr s1"
  proof (cases "extra_robot cfg")
    case False
    then show ?thesis by (simp add: update_extra_def)
  next
    case True
    have "length (agent_velocity cfg aux 0) = length (huil_p ?s ! 0)"
      using ag cols(2) by (simp add: agent_velocity_def initial_huil_p_def)
    then obtain h where "euler cfg (agent_velocity cfg aux 0) (huil_p ?s ! 0) = Inr h"
      by (simp add: euler_def)
    with True lh show ?thesis by (simp add: update_extra_def)
  qed
  then obtain s1 where s1: "update_extra cfg aux 0 ?s = Inr s1" by blast
  have core: "loop_core cfg aux pc 0 st0 = Inr s1"
    using lp lh u q s1 by (simp add: loop_core_def)
  have "env s1 = unbound_ambient" using loop_core_frame(8) [OF core] env0 by simp
  then have "log_block cfg pc s1 = Inl NameError"
    by (simp add: log_block_unbound unbound_ambient_def)
  with core have body: "loop_body cfg aux pc 0 st0 = Inl NameError"
    by (simp add: loop_body_def)
  have "0 < nat (max_time_size cfg - 1)" using T by simp
  then have idx: "step_indices cfg = 0 # [Suc 0..<nat (max_time_size cfg - 1)]"
    unfolding step_indices_def by (rule upt_conv_Cons)
  have "sim_loop cfg aux pc (step_indices cfg) st0 = Inl NameError"
    unfolding idx using body by simp
  with pc init show ?thesis by (simp add: simulate_def)
qed

lemma precalculate_default: "\<exists>pc. precalculate default_config = Inr pc"
proof -
  from build_graph_default obtain g where bg: "build_graph default_config = Inr g" by blast
  have rf: "reshape_formation default_config =
              Inr (map real_of_int (concat (formation_positions default_config)))"
    by (simp add: reshape_formation_def default_config_def default_formation_def dim_def)
  have aw: "\<exists>a. Aw default_config = Inr a" by (simp add: Aw_def default_limits)
  then obtain a where aw: "Aw default_config = Inr a" by blast
  have hc: "huil_columns_ok default_config"
    by (simp add: huil_columns_ok_def number_robots_default np_index_def)
       (simp add: default_config_def length_default_formation)
  show ?thesis
    unfolding precalculate_def Let_def bg rf aw
    by (simp only: sum.case hc if_True) blast
qed

lemma default_pass_count:
  "max_time_size default_config = 3000 \<and> length (step_indices default_config) = 2999"
  by (simp add: step_indices_def max_time_size_default)

text \<open>
  Claim C1, evaluated on the default configuration as \<^verbatim>\<open>main.py\<close> has it, with none of the
  names \<^verbatim>\<open>self\<close>, \<^verbatim>\<open>time\<close>, \<^verbatim>\<open>uhuilx\<close>, \<^verbatim>\<open>uhuily\<close> bound: whatever is drawn, and whatever
  well-formed commands and agent velocities the functions of \<^verbatim>\<open>auxiliary\<close> return, the
  first pass integrates the positions and then raises NameError in the logging block.
  No row is appended to any history table and no later pass is made.
\<close>

theorem default_run_stops_in_logging:
  assumes "length r = 42"
    and "\<forall>c. \<exists>u. cbfController aux c = Inr u \<and> length u = length (arg_p (base_args c))"
    and "\<forall>i T v d. length (extraRobotDynamics aux i T v d) = 2"
  shows "simulate default_config aux unbound_ambient r = Inl NameError"
proof -
  from precalculate_default obtain pc where pc: "precalculate default_config = Inr pc"
    by blast
  have T: "1 < max_time_size default_config" by (simp add: max_time_size_default)
  from first_pass_NameError [OF pc initial_state_default [OF assms(1)] T assms(2,3)]
  show ?thesis .
qed

theorem default_run_stops_in_logging_witness:
  "simulate default_config halting_auxiliary unbound_ambient default_draw = Inl NameError"
proof -
  have f: "\<forall>c. \<exists>u. cbfController halting_auxiliary c = Inr u \<and>
                     length u = length (arg_p (base_args c))"
    by (simp add: halting_auxiliary_def)
  have a: "\<forall>i T v d. length (extraRobotDynamics halting_auxiliary i T v d) = 2"
    by (simp add: halting_auxiliary_def sample_auxiliary_def)
  from default_run_stops_in_logging [OF length_default_draw f a] show ?thesis .
qed

end
